theory Spec2Isabelle
  imports Complex_Main "HOL-Library.Sublist"
begin

section \<open>Strings of the codec tester\<close>

text \<open>
  The batch codec tester \<^verbatim>\<open>test-codecs.js\<close> works on JavaScript strings. They are
  modelled as \<^typ>\<open>string\<close>; codec names, property names and file extensions are ASCII,
  and the case mapping below is the ASCII part of \<^verbatim>\<open>String.prototype.toLowerCase\<close>.
\<close>

definition isDigit :: "char \<Rightarrow> bool" where
  \<comment> \<open>the regular expression class \<^verbatim>\<open>\d\<close>, that is \<^verbatim>\<open>[0-9]\<close>\<close>
  "isDigit c = (let n = (of_char c :: nat) in 48 \<le> n \<and> n \<le> 57)"

definition toLowerChar :: "char \<Rightarrow> char" where
  "toLowerChar c =
     (let n = (of_char c :: nat) in if 65 \<le> n \<and> n \<le> 90 then char_of (n + 32) else c)"

definition toLowerCase :: "string \<Rightarrow> string" where
  "toLowerCase s = map toLowerChar s"

fun startsWith :: "string \<Rightarrow> string \<Rightarrow> bool" where
  "startsWith s [] = True"
| "startsWith [] (y # ys) = False"
| "startsWith (x # xs) (y # ys) = (x = y \<and> startsWith xs ys)"

fun includesStr :: "string \<Rightarrow> string \<Rightarrow> bool" where
  \<comment> \<open>\<^verbatim>\<open>s.includes(t)\<close>: \<open>t\<close> occurs in \<open>s\<close> at some position\<close>
  "includesStr [] t = (t = [])"
| "includesStr (x # xs) t = (startsWith (x # xs) t \<or> includesStr xs t)"

fun replaceFirstDigit :: "string \<Rightarrow> string" where
  \<comment> \<open>\<^verbatim>\<open>s.replace(/(\d)/, '.$1')\<close>: a dot is put before the first digit, if there is one\<close>
  "replaceFirstDigit [] = []"
| "replaceFirstDigit (c # cs) =
     (if isDigit c then CHR ''.'' # c # cs else c # replaceFirstDigit cs)"

section \<open>The conversion rules and the classification\<close>

record rules =
  unsupportedCodecs :: "string list"
  conversionFormats :: "string list"

definition VIDVUR_UNSUPPORTED_CODECS :: "string list" where
  "VIDVUR_UNSUPPORTED_CODECS =
     [''h263'', ''h263p'',
      ''mpeg1video'', ''mpeg2video'',
      ''msmpeg4v2'', ''msmpeg4v3'',
      ''wmv1'', ''wmv2'', ''wmv3'',
      ''vc1'', ''rv40'',
      ''svq1'', ''svq3'',
      ''cinepak'', ''indeo3'', ''indeo5'']"

definition VIDVUR_CONVERSION_FORMATS :: "string list" where
  "VIDVUR_CONVERSION_FORMATS =
     [''.mov'', ''.mkv'', ''.avi'', ''.flv'', ''.wmv'',
      ''.mpg'', ''.mpeg'', ''.3gp'']"

definition VIDVUR_RULES :: rules where
  "VIDVUR_RULES =
     \<lparr>unsupportedCodecs = VIDVUR_UNSUPPORTED_CODECS,
      conversionFormats = VIDVUR_CONVERSION_FORMATS\<rparr>"

definition entryMatches :: "string \<Rightarrow> string \<Rightarrow> bool" where
  \<comment> \<open>the callback given to \<^verbatim>\<open>some\<close> (lines 98 to 102)\<close>
  "entryMatches codecLower unsupported =
     (let normalized = replaceFirstDigit unsupported
      in includesStr codecLower unsupported \<or> includesStr codecLower normalized)"

definition codecUnsupported :: "rules \<Rightarrow> string \<Rightarrow> bool" where
  "codecUnsupported R codec =
     (let codecLower = toLowerCase codec
      in list_ex (entryMatches codecLower) (unsupportedCodecs R))"

definition wouldConvertOf :: "rules \<Rightarrow> string \<Rightarrow> string \<Rightarrow> bool" where
  \<comment> \<open>line 103; \<open>ext\<close> is the lowercased extension of the file\<close>
  "wouldConvertOf R codec ext =
     (codecUnsupported R codec \<or> ext \<in> set (conversionFormats R))"

definition reasonOf :: "rules \<Rightarrow> string \<Rightarrow> string \<Rightarrow> string option" where
  \<comment> \<open>lines 115 to 119; \<^verbatim>\<open>null\<close> is \<open>None\<close>\<close>
  "reasonOf R codec ext =
     (if wouldConvertOf R codec ext
      then (if codecUnsupported R codec
            then Some ''Unsupported codec''
            else Some ''Container format requires conversion'')
      else None)"

definition canonicalizeCodec :: "string \<Rightarrow> string" where
  \<comment> \<open>the two normalisation steps of lines 97 and 100 applied to one string:
      lowercasing, then the dot before the first digit\<close>
  "canonicalizeCodec raw = replaceFirstDigit (toLowerCase raw)"

section \<open>Values, thrown errors and the outside world\<close>

text \<open>
  A property of the player is a JSON value. Every finite JavaScript number is a rational,
  so numbers are carried as \<^typ>\<open>rat\<close>. An array or another object is \<open>JObject t\<close>,
  given by its conversion to a string: \<open>Some text\<close>, or \<open>None\<close> when the conversion
  throws. Values are data without functions of their own, so a conversion that throws
  is the \<^verbatim>\<open>TypeError\<close> of the runtime for an object that has no callable
  \<^verbatim>\<open>toString\<close> (a JSON object with a key \<^verbatim>\<open>toString\<close>, for example).
\<close>

datatype jsval =
  JUndefined | JNull | JBool bool | JNum rat | JStr string | JObject "string option"

fun truthy :: "jsval \<Rightarrow> bool" where
  "truthy JUndefined = False"
| "truthy JNull = False"
| "truthy (JBool b) = b"
| "truthy (JNum q) = (q \<noteq> 0)"
| "truthy (JStr s) = (s \<noteq> [])"
| "truthy (JObject t) = True"

text \<open>
  What a \<^verbatim>\<open>catch\<close> clause can receive. \<open>JsError m\<close> is an \<^verbatim>\<open>Error\<close> instance
  with the non-empty message \<open>m\<close> (the one of line 92, or a \<^verbatim>\<open>TypeError\<close> of the
  runtime). Any other value, such as the rejection of a promise of the player library, is
  \<open>Foreign msg json str\<close>, given by what lines 140 and 142 observe of it: \<open>msg\<close> is
  \<^verbatim>\<open>error?.message\<close>, \<open>json\<close> is the value of
  \<^verbatim>\<open>JSON.stringify(error, Object.getOwnPropertyNames(error))\<close> (\<open>None\<close> when that
  expression throws), and \<open>str\<close> is \<^verbatim>\<open>String(error)\<close> (\<open>None\<close> when that
  conversion throws).
\<close>

datatype thrown = JsError string | Foreign jsval "jsval option" "string option"

definition cannotConvert :: thrown where
  \<comment> \<open>the \<^verbatim>\<open>TypeError\<close> of a string conversion that fails\<close>
  "cannotConvert = JsError ''Cannot convert object to primitive value''"

fun errorMsg :: "thrown \<Rightarrow> thrown + jsval" where
  \<comment> \<open>lines 138 to 143; line 142 is outside every \<^verbatim>\<open>try\<close>, so \<open>Inl\<close> when
      \<^verbatim>\<open>String(error)\<close> throws\<close>
  "errorMsg (JsError m) = Inr (JStr m)"
| "errorMsg (Foreign msg json str) =
     (if truthy msg then Inr msg
      else case json of
             None \<Rightarrow> (case str of None \<Rightarrow> Inl cannotConvert | Some text \<Rightarrow> Inr (JStr text))
           | Some j \<Rightarrow> if truthy j then Inr j else Inr (JStr ''Unknown error''))"

text \<open>
  Library functions of the runtime that the script calls and that are not part of the
  repository: \<^verbatim>\<open>path.basename\<close>, \<^verbatim>\<open>path.extname\<close>,
  \<^verbatim>\<open>Number.prototype.toFixed\<close> at two digits, and the string form of a number.
\<close>

record host =
  basename :: "string \<Rightarrow> string"
  extname :: "string \<Rightarrow> string"
  toFixed2 :: "rat \<Rightarrow> string"
  numToStr :: "rat \<Rightarrow> string"

definition toString :: "host \<Rightarrow> jsval \<Rightarrow> thrown + string" where
  \<comment> \<open>the conversion of a value inside a template literal; \<open>Inl\<close> when it throws\<close>
  "toString H v =
     (case v of
        JUndefined \<Rightarrow> Inr ''undefined''
      | JNull \<Rightarrow> Inr ''null''
      | JBool b \<Rightarrow> Inr (if b then ''true'' else ''false'')
      | JNum q \<Rightarrow> Inr (numToStr H q)
      | JStr text \<Rightarrow> Inr text
      | JObject t \<Rightarrow> (case t of None \<Rightarrow> Inl cannotConvert | Some text \<Rightarrow> Inr text))"

text \<open>
  The effects of a probe are calls to the outside: reading the clock, loading a file,
  waiting, reading a property. They are recorded in order.
\<close>

datatype event = DateNow | Load string | Sleep nat | GetProperty string

text \<open>
  The player process is outside the program. It is a parameter: its answer to a call may
  depend on every call made before (the history), and \<open>lag\<close> is the time in
  milliseconds that a call takes beyond what it is asked to wait.
\<close>

record mpv =
  load :: "event list \<Rightarrow> string \<Rightarrow> thrown option"
  getProperty :: "event list \<Rightarrow> string \<Rightarrow> thrown + jsval"
  lag :: "event list \<Rightarrow> event \<Rightarrow> nat"

record entry =
  filename :: string
  codec :: string
  format :: jsval
  resolution :: string
  fps :: string
  duration :: string
  loadTime :: nat
  wouldConvert :: bool
  reason :: "string option"

text \<open>
  An element of the array \<^verbatim>\<open>results\<close>: the object of lines 105 to 120
  (\<^verbatim>\<open>success: true\<close>) or the one of lines 146 to 150 (\<^verbatim>\<open>success: false\<close>, with
  \<^verbatim>\<open>filename\<close> and \<^verbatim>\<open>error\<close>).
\<close>

datatype result = Success entry | Failure string jsval

fun success :: "result \<Rightarrow> bool" where
  "success (Success e) = True"
| "success (Failure fn err) = False"


record state =
  clock :: nat
  trace :: "event list"
  results :: "result list"

fun waitOf :: "event \<Rightarrow> nat" where
  "waitOf (Sleep ms) = ms"
| "waitOf ev = 0"

definition perform :: "mpv \<Rightarrow> event \<Rightarrow> state \<Rightarrow> state" where
  "perform p ev s =
     s\<lparr>clock := clock s + waitOf ev + lag p (trace s) ev, trace := trace s @ [ev]\<rparr>"

definition dateNow :: "state \<Rightarrow> nat \<times> state" where
  \<comment> \<open>\<^verbatim>\<open>Date.now()\<close>\<close>
  "dateNow s = (clock s, s\<lparr>trace := trace s @ [DateNow]\<rparr>)"

definition playerLoad :: "mpv \<Rightarrow> string \<Rightarrow> state \<Rightarrow> thrown option \<times> state" where
  \<comment> \<open>\<^verbatim>\<open>await player.load(filePath)\<close>; \<open>Some e\<close> when the promise rejects with \<open>e\<close>\<close>
  "playerLoad p filePath s = (load p (trace s) filePath, perform p (Load filePath) s)"

definition settle :: "mpv \<Rightarrow> nat \<Rightarrow> state \<Rightarrow> state" where
  \<comment> \<open>\<^verbatim>\<open>await new Promise(resolve => setTimeout(resolve, ms))\<close>\<close>
  "settle p ms s = perform p (Sleep ms) s"

definition tryGetProperty :: "mpv \<Rightarrow> string \<Rightarrow> state \<Rightarrow> jsval \<times> state" where
  \<comment> \<open>one \<^verbatim>\<open>try { x = await player.getProperty(name) } catch (e) { x = null }\<close>\<close>
  "tryGetProperty p name s =
     (case getProperty p (trace s) name of
        Inl e \<Rightarrow> (JNull, perform p (GetProperty name) s)
      | Inr v \<Rightarrow> (v, perform p (GetProperty name) s))"

section \<open>Probing one file: \<^verbatim>\<open>testVideo\<close>\<close>

definition readProperties ::
  "mpv \<Rightarrow> state \<Rightarrow> (jsval \<times> jsval \<times> jsval \<times> jsval \<times> jsval \<times> jsval) \<times> state" where
  \<comment> \<open>lines 57 to 88: six reads, each with its own \<^verbatim>\<open>try\<close> and \<^verbatim>\<open>catch\<close>\<close>
  "readProperties p s4 =
     (let (codec, s5) = tryGetProperty p ''video-codec'' s4;
          (format, s6) = tryGetProperty p ''file-format'' s5;
          (width, s7) = tryGetProperty p ''video-params/w'' s6;
          (height, s8) = tryGetProperty p ''video-params/h'' s7;
          (fps, s9) = tryGetProperty p ''container-fps'' s8;
          (duration, s10) = tryGetProperty p ''duration'' s9
      in ((codec, format, width, height, fps, duration), s10))"

definition fixedOrNA :: "host \<Rightarrow> string \<Rightarrow> jsval \<Rightarrow> thrown + string" where
  \<comment> \<open>\<^verbatim>\<open>x ? x.toFixed(2) : 'N/A'\<close> for the variable named \<open>x\<close>; only a number has
      \<^verbatim>\<open>toFixed\<close>, on another truthy value the call is a \<^verbatim>\<open>TypeError\<close>\<close>
  "fixedOrNA H x v =
     (if truthy v
      then (case v of
              JNum q \<Rightarrow> Inr (toFixed2 H q)
            | _ \<Rightarrow> Inl (JsError (x @ ''.toFixed is not a function'')))
      else Inr ''N/A'')"

definition buildResult ::
  "host \<Rightarrow> rules \<Rightarrow> string \<Rightarrow> string \<Rightarrow> nat \<Rightarrow>
   (jsval \<times> jsval \<times> jsval \<times> jsval \<times> jsval \<times> jsval) \<Rightarrow> thrown + entry" where
  \<comment> \<open>lines 90 to 120; the fields of the object are evaluated in the order written, so
      the conversions of line 109 come before the calls of lines 110 and 111\<close>
  "buildResult H R fname ext ltime props =
     (let (codec, format, width, height, fps, duration) = props
      in if \<not> truthy codec
         then Inl (JsError ''Could not detect video codec'')
         else (case codec of
                 JStr c \<Rightarrow>
                   (case toString H width of
                      Inl e \<Rightarrow> Inl e
                    | Inr widthText \<Rightarrow>
                   (case toString H height of
                      Inl e \<Rightarrow> Inl e
                    | Inr heightText \<Rightarrow>
                   (case fixedOrNA H ''fps'' fps of
                      Inl e \<Rightarrow> Inl e
                    | Inr fpsText \<Rightarrow>
                   (case fixedOrNA H ''duration'' duration of
                      Inl e \<Rightarrow> Inl e
                    | Inr durationText \<Rightarrow>
                        Inr \<lparr>filename = fname,
                             codec = c,
                             format = format,
                             resolution = widthText @ ''x'' @ heightText,
                             fps = fpsText,
                             duration = durationText,
                             loadTime = ltime,
                             wouldConvert = wouldConvertOf R c ext,
                             reason = reasonOf R c ext\<rparr>))))
               | _ \<Rightarrow> Inl (JsError ''codec.toLowerCase is not a function'')))"

definition pushAndPrint :: "host \<Rightarrow> entry \<Rightarrow> state \<Rightarrow> (thrown + bool) \<times> state" where
  \<comment> \<open>lines 122 to 136: the result is pushed first, then printed. The template literals
      of lines 125 and 127 to 131 convert values that lines 97 and 109 to 111 have
      converted already; the one of line 126 converts \<^verbatim>\<open>format\<close> for the first time\<close>
  "pushAndPrint H r s10 =
     (let s11 = s10\<lparr>results := results s10 @ [Success r]\<rparr>
      in case toString H (format r) of
           Inl e \<Rightarrow> (Inl e, s11)
         | Inr formatText \<Rightarrow> (Inr True, s11))"

definition tryBlock ::
  "host \<Rightarrow> rules \<Rightarrow> mpv \<Rightarrow> string \<Rightarrow> string \<Rightarrow> string \<Rightarrow> state \<Rightarrow> (thrown + bool) \<times> state"
  where
  \<comment> \<open>lines 50 to 136: \<open>Inl e\<close> when the block is left by throwing \<open>e\<close>, \<open>Inr b\<close> when
      it returns \<open>b\<close>\<close>
  "tryBlock H R p filePath fname ext s0 =
     (let (startTime, s1) = dateNow s0;
          (rejected, s2) = playerLoad p filePath s1
      in case rejected of
           Some e \<Rightarrow> (Inl e, s2)
         | None \<Rightarrow>
             (let (now, s3) = dateNow s2;
                  ltime = now - startTime;
                  s4 = settle p 200 s3;
                  (props, s10) = readProperties p s4
              in case buildResult H R fname ext ltime props of
                   Inl e \<Rightarrow> (Inl e, s10)
                 | Inr r \<Rightarrow> pushAndPrint H r s10))"

definition catchBlock :: "host \<Rightarrow> string \<Rightarrow> thrown \<Rightarrow> state \<Rightarrow> (thrown + bool) \<times> state" where
  \<comment> \<open>lines 137 to 153: the message is computed, converted by the template literal of
      line 144, and only then is the failure pushed; \<open>Inl e\<close> when the handler itself
      throws \<open>e\<close>, which leaves \<^verbatim>\<open>testVideo\<close> by rejection\<close>
  "catchBlock H fname error s =
     (case errorMsg error of
        Inl e \<Rightarrow> (Inl e, s)
      | Inr message \<Rightarrow>
          (case toString H message of
             Inl e \<Rightarrow> (Inl e, s)
           | Inr messageText \<Rightarrow>
               (Inr False, s\<lparr>results := results s @ [Failure fname message]\<rparr>)))"

definition testVideo ::
  "host \<Rightarrow> rules \<Rightarrow> mpv \<Rightarrow> string \<Rightarrow> state \<Rightarrow> (thrown + bool) \<times> state" where
  \<comment> \<open>lines 43 to 154; \<open>fname\<close> is the constant \<^verbatim>\<open>filename\<close> of line 44, and the
      module constants of lines 15 to 29 are the parameter \<open>R\<close>. \<open>Inl e\<close> when the
      returned promise rejects with \<open>e\<close>\<close>
  "testVideo H R p filePath s =
     (let fname = basename H filePath;
          ext = toLowerCase (extname H filePath);
          (outcome, s') = tryBlock H R p filePath fname ext s
      in case outcome of
           Inr b \<Rightarrow> (Inr b, s')
         | Inl error \<Rightarrow> catchBlock H fname error s')"

fun testFiles :: "host \<Rightarrow> rules \<Rightarrow> mpv \<Rightarrow> string list \<Rightarrow> state \<Rightarrow> thrown option \<times> state" where
  \<comment> \<open>lines 296 to 298: \<^verbatim>\<open>for (const file of files) await testVideo(file)\<close>; the loop
      has no \<^verbatim>\<open>try\<close>, so a rejection of \<^verbatim>\<open>testVideo\<close> ends it (\<open>Some e\<close>)\<close>
  "testFiles H R p [] s = (None, s)"
| "testFiles H R p (file # files) s =
     (case testVideo H R p file s of
        (Inl e, s') \<Rightarrow> (Some e, s')
      | (Inr b, s') \<Rightarrow> testFiles H R p files s')"

section \<open>The report: \<^verbatim>\<open>printReport\<close>\<close>

text \<open>
  \<^verbatim>\<open>printReport\<close> writes to the console. The model returns the quantities it computes
  and prints. \<open>avgLoadTime\<close> is \<open>None\<close> when the performance block of lines 196
  to 203 is skipped; the ratios of line 201 are printed from the average and are not part
  of the record. The average is the exact quotient, which JavaScript rounds to a double.
  \<open>codecs\<close> is the object of line 207 as a map from codec names to counts; a codec
  name is taken not to be the name of a property that every object inherits (such as
  \<^verbatim>\<open>constructor\<close>). \<open>codecWarned\<close> is the indicator of lines 214 to 219 for each name
  that was counted.
\<close>

record report =
  total :: nat
  successfulCount :: nat
  failedCount :: nat
  wouldConvertList :: "entry list"
  noConversionNeededList :: "entry list"
  failedList :: "result list"
  avgLoadTime :: "rat option"
  codecs :: "string \<rightharpoonup> nat"
  codecWarned :: "string \<rightharpoonup> bool"

fun successfulOf :: "result list \<Rightarrow> entry list" where
  \<comment> \<open>\<^verbatim>\<open>results.filter(r => r.success)\<close>\<close>
  "successfulOf [] = []"
| "successfulOf (Success e # rs) = e # successfulOf rs"
| "successfulOf (Failure fn err # rs) = successfulOf rs"

definition countCodec :: "(string \<rightharpoonup> nat) \<Rightarrow> entry \<Rightarrow> (string \<rightharpoonup> nat)" where
  \<comment> \<open>lines 209 and 210: a missing (or zero) count starts at 0 and is then incremented\<close>
  "countCodec m r =
     (case m (codec r) of
        None \<Rightarrow> m(codec r \<mapsto> 1)
      | Some n \<Rightarrow> m(codec r \<mapsto> n + 1))"

definition printReport :: "rules \<Rightarrow> result list \<Rightarrow> report" where
  "printReport R rs =
     (let successful = successfulOf rs;
          failed = filter (\<lambda>r. \<not> success r) rs;
          wouldConvertL = filter (\<lambda>r. wouldConvert r) successful;
          noConversionNeeded = filter (\<lambda>r. \<not> wouldConvert r) successful;
          avg = (if length successful > 0
                 then Some (rat_of_nat (foldl (\<lambda>sum r. sum + loadTime r) 0 successful)
                            / rat_of_nat (length successful))
                 else None);
          counts = foldl countCodec Map.empty successful
      in \<lparr>total = length rs,
          successfulCount = length successful,
          failedCount = length failed,
          wouldConvertList = wouldConvertL,
          noConversionNeededList = noConversionNeeded,
          failedList = failed,
          avgLoadTime = avg,
          codecs = counts,
          codecWarned = (\<lambda>c. map_option (\<lambda>n. codecUnsupported R c) (counts c))\<rparr>)"

definition runBatch :: "host \<Rightarrow> rules \<Rightarrow> mpv \<Rightarrow> string list \<Rightarrow> state \<Rightarrow> thrown + report" where
  \<comment> \<open>lines 295 to 301 of \<^verbatim>\<open>main\<close>; a rejection goes to the handler of line 321 and
      no report is printed\<close>
  "runBatch H R p files s =
     (case testFiles H R p files s of
        (Some e, s') \<Rightarrow> Inl e
      | (None, s') \<Rightarrow> Inr (printReport R (results s')))"

section \<open>Notions used to state the properties\<close>

definition propertyNames :: "string list" where
  \<comment> \<open>the names read by lines 60, 65, 70, 75, 80 and 85, in that order\<close>
  "propertyNames =
     [''video-codec'', ''file-format'', ''video-params/w'', ''video-params/h'',
      ''container-fps'', ''duration'']"

definition orNull :: "thrown + jsval \<Rightarrow> jsval" where
  \<comment> \<open>the value a variable holds after its guarded read\<close>
  "orNull reply = (case reply of Inl e \<Rightarrow> JNull | Inr v \<Rightarrow> v)"

definition loaded :: "mpv \<Rightarrow> string \<Rightarrow> state \<Rightarrow> state" where
  \<comment> \<open>the state after lines 50 and 51\<close>
  "loaded p filePath s = perform p (Load filePath) (snd (dateNow s))"

definition settled :: "mpv \<Rightarrow> string \<Rightarrow> state \<Rightarrow> state" where
  \<comment> \<open>the state after lines 50 to 55\<close>
  "settled p filePath s = settle p 200 (snd (dateNow (loaded p filePath s)))"

definition probeErrors :: "string set" where
  \<comment> \<open>the messages of the errors that lines 90 to 136 can raise: line 92, and the
      type errors of lines 97, 109 (and 126), 110 and 111\<close>
  "probeErrors =
     {''Could not detect video codec'',
      ''codec.toLowerCase is not a function'',
      ''Cannot convert object to primitive value'',
      ''fps.toFixed is not a function'',
      ''duration.toFixed is not a function''}"

definition probed :: "mpv \<Rightarrow> string \<Rightarrow> state \<Rightarrow> state" where
  \<comment> \<open>the state after lines 50 to 88\<close>
  "probed p filePath s = snd (readProperties p (settled p filePath s))"

definition built :: "host \<Rightarrow> rules \<Rightarrow> mpv \<Rightarrow> string \<Rightarrow> state \<Rightarrow> thrown + entry" where
  \<comment> \<open>the result object of a probe whose load succeeded\<close>
  "built H R p filePath s =
     buildResult H R (basename H filePath) (toLowerCase (extname H filePath))
       (lag p (trace s @ [DateNow]) (Load filePath))
       (fst (readProperties p (settled p filePath s)))"

definition handled :: "host \<Rightarrow> string \<Rightarrow> thrown \<Rightarrow> result list" where
  \<comment> \<open>what the handler of lines 137 to 153 stores for a thrown value\<close>
  "handled H fname e =
     (case errorMsg e of
        Inl x \<Rightarrow> []
      | Inr message \<Rightarrow>
          (case toString H message of Inl x \<Rightarrow> [] | Inr text \<Rightarrow> [Failure fname message]))"

definition stored :: "host \<Rightarrow> rules \<Rightarrow> mpv \<Rightarrow> string \<Rightarrow> state \<Rightarrow> result list" where
  \<comment> \<open>the results that one call of \<^verbatim>\<open>testVideo\<close> appends\<close>
  "stored H R p filePath s =
     (case load p (trace s @ [DateNow]) filePath of
        Some e \<Rightarrow> handled H (basename H filePath) e
      | None \<Rightarrow>
          (case built H R p filePath s of
             Inl e \<Rightarrow> handled H (basename H filePath) e
           | Inr r \<Rightarrow>
               Success r #
                 (case toString H (format r) of
                    Inl e \<Rightarrow> handled H (basename H filePath) e
                  | Inr text \<Rightarrow> [])))"

definition convertible :: "jsval \<Rightarrow> bool" where
  \<comment> \<open>the conversion of the value to a string does not throw\<close>
  "convertible v = (v \<noteq> JObject None)"

definition reportable :: "thrown \<Rightarrow> bool" where
  \<comment> \<open>lines 138 to 144 get through with the thrown value: a message is computed and
      the template literal converts it\<close>
  "reportable e = (case errorMsg e of Inl x \<Rightarrow> False | Inr message \<Rightarrow> convertible message)"


definition canonicalMatch :: "rules \<Rightarrow> string \<Rightarrow> bool" where
  \<comment> \<open>the matching that the specification describes, by one canonical form and
      membership: the canonical form of the codec is an entry of the list, or the
      canonical form of an entry\<close>
  "canonicalMatch R c =
     (canonicalizeCodec c \<in> set (unsupportedCodecs R)
      \<or> canonicalizeCodec c \<in> set (map canonicalizeCodec (unsupportedCodecs R)))"

definition dottedForms :: "string \<Rightarrow> string set" where
  \<comment> \<open>an entry with a dot put before its first digit, said without the functions of
      the program; the set is empty when the entry has no digit\<close>
  "dottedForms u =
     {pre @ CHR ''.'' # d # post | pre d post.
        u = pre @ d # post \<and> d \<in> set ''0123456789'' \<and> set pre \<inter> set ''0123456789'' = {}}"

definition containsEntry :: "rules \<Rightarrow> string \<Rightarrow> bool" where
  \<comment> \<open>the string contains an entry of the codec list, or the dotted form of one, at
      some position\<close>
  "containsEntry R text =
     (\<exists>u \<in> set (unsupportedCodecs R).
        (\<exists>before after. text = before @ u @ after)
        \<or> (\<exists>v \<in> dottedForms u. \<exists>before after. text = before @ v @ after))"

section \<open>An example world\<close>

text \<open>
  A host, two players and a starting state on which the definitions are run. The host
  functions agree with the runtime on the paths and numbers that occur here: relative
  paths of files with one extension, and whole numbers of pixels. \<open>demoPlayer\<close>
  answers with values that convert to strings; \<open>oddPlayer\<close> rejects a load with a
  value that does not, and reports such a value as \<^verbatim>\<open>file-format\<close>.
\<close>

definition digitChar :: "nat \<Rightarrow> char" where
  "digitChar d = char_of (48 + d)"

function showNat :: "nat \<Rightarrow> string" where
  "showNat n = (if n < 10 then [digitChar n] else showNat (n div 10) @ [digitChar (n mod 10)])"
  by pat_completeness auto
termination
  by (relation "measure id") auto

declare showNat.simps [simp del]

definition demoBasename :: "string \<Rightarrow> string" where
  "demoBasename path = rev (takeWhile (\<lambda>c. c \<noteq> CHR ''/'') (rev path))"

definition demoExtname :: "string \<Rightarrow> string" where
  "demoExtname path =
     (let base = demoBasename path;
          tail = rev (takeWhile (\<lambda>c. c \<noteq> CHR ''.'') (rev base))
      in if length base \<le> length tail + 1 then [] else CHR ''.'' # tail)"

definition demoToFixed2 :: "rat \<Rightarrow> string" where
  "demoToFixed2 q =
     (let n = nat \<lfloor>\<bar>q\<bar> * 100 + 1 / 2\<rfloor>
      in (if q < 0 then ''-'' else []) @ showNat (n div 100) @ ''.''
           @ [digitChar (n mod 100 div 10), digitChar (n mod 10)])"

definition demoNumToStr :: "rat \<Rightarrow> string" where
  "demoNumToStr q = (if q < 0 then ''-'' else []) @ showNat (nat \<lfloor>\<bar>q\<bar>\<rfloor>)"

definition demoHost :: host where
  "demoHost =
     \<lparr>basename = demoBasename, extname = demoExtname,
      toFixed2 = demoToFixed2, numToStr = demoNumToStr\<rparr>"

fun lastLoaded :: "event list \<Rightarrow> string" where
  \<comment> \<open>the file of the latest \<open>Load\<close> of a history\<close>
  "lastLoaded [] = []"
| "lastLoaded (Load f # evs) = (if lastLoaded evs = [] then f else lastLoaded evs)"
| "lastLoaded (ev # evs) = lastLoaded evs"

definition unavailable :: thrown where
  \<comment> \<open>a rejection with an empty plain object, which has no \<^verbatim>\<open>message\<close>\<close>
  "unavailable = Foreign JUndefined (Some (JStr ''{}'')) (Some ''[object Object]'')"

definition unprintable :: thrown where
  \<comment> \<open>a rejection with an object that neither \<^verbatim>\<open>JSON.stringify\<close> nor
      \<^verbatim>\<open>String\<close> can convert\<close>
  "unprintable = Foreign JUndefined None None"

definition demoProperty :: "string \<Rightarrow> string \<Rightarrow> thrown + jsval" where
  "demoProperty file name =
     (if file = ''clips/old.mp4'' then
        (if name = ''video-codec'' then Inr (JStr ''H.263'')
         else if name = ''file-format'' then Inr (JStr ''mov,mp4,m4a,3gp,3g2,mj2'')
         else if name = ''video-params/w'' then Inr (JNum 352)
         else if name = ''video-params/h'' then Inr (JNum 288)
         else if name = ''duration'' then Inr (JNum (25 / 2))
         else Inl unavailable)
      else if file = ''clips/slides.wmv'' \<or> file = ''clips/deck.mp4'' then
        (if name = ''video-codec'' then Inr (JStr ''wmv3image'')
         else if name = ''video-params/w'' then Inr (JNum 640)
         else if name = ''video-params/h'' then Inr (JNum 480)
         else Inl unavailable)
      else Inl unavailable)"

definition demoPlayer :: mpv where
  "demoPlayer =
     \<lparr>load = (\<lambda>h f. if f = ''clips/broken.avi'' then Some unavailable else None),
      getProperty = (\<lambda>h name. demoProperty (lastLoaded h) name),
      lag = (\<lambda>h ev. case ev of Load f \<Rightarrow> 12 | GetProperty n \<Rightarrow> 1 | _ \<Rightarrow> 0)\<rparr>"

definition oddPlayer :: mpv where
  \<comment> \<open>a player whose answers hold objects that do not convert to strings\<close>
  "oddPlayer =
     \<lparr>load = (\<lambda>h f. if f = ''clips/odd.avi'' then Some unprintable else None),
      getProperty =
        (\<lambda>h name. if name = ''video-codec'' then Inr (JStr ''h264'')
                   else if name = ''file-format'' then Inr (JObject None)
                   else Inl unavailable),
      lag = (\<lambda>h ev. case ev of Load f \<Rightarrow> 12 | GetProperty n \<Rightarrow> 1 | _ \<Rightarrow> 0)\<rparr>"

definition s0 :: state where
  "s0 = \<lparr>clock = 1000, trace = [], results = []\<rparr>"

definition oldEntry :: entry where
  "oldEntry =
     \<lparr>filename = ''old.mp4'', codec = ''H.263'',
      format = JStr ''mov,mp4,m4a,3gp,3g2,mj2'',
      resolution = ''352x288'', fps = ''N/A'', duration = ''12.50'',
      loadTime = 12, wouldConvert = True,
      reason = Some ''Unsupported codec''\<rparr>"

definition slidesEntry :: entry where
  "slidesEntry =
     \<lparr>filename = ''slides.wmv'', codec = ''wmv3image'',
      format = JNull,
      resolution = ''640x480'', fps = ''N/A'', duration = ''N/A'',
      loadTime = 12, wouldConvert = True,
      reason = Some ''Unsupported codec''\<rparr>"

definition deckEntry :: entry where
  "deckEntry =
     \<lparr>filename = ''deck.mp4'', codec = ''wmv3image'',
      format = JNull,
      resolution = ''640x480'', fps = ''N/A'', duration = ''N/A'',
      loadTime = 12, wouldConvert = True,
      reason = Some ''Unsupported codec''\<rparr>"

definition metaEntry :: entry where
  "metaEntry =
     \<lparr>filename = ''meta.mp4'', codec = ''h264'',
      format = JObject None,
      resolution = ''nullxnull'', fps = ''N/A'', duration = ''N/A'',
      loadTime = 12, wouldConvert = False,
      reason = None\<rparr>"

section \<open>Properties of the string operations\<close>

lemma startsWith_prefix: "startsWith s t = prefix t s"
  by (induction s t rule: startsWith.induct) auto

lemma includesStr_sublist: "includesStr s t = sublist t s"
proof (induction s)
  case Nil
  show ?case by simp
next
  case (Cons x xs)
  show ?case
  proof (cases t)
    case Nil
    then show ?thesis by simp
  next
    case (Cons y ys)
    with Cons.IH show ?thesis
      by (simp add: startsWith_prefix sublist_Cons_right)
  qed
qed

lemma includesStr_self: "includesStr s s"
  by (simp add: includesStr_sublist)

subsection \<open>Lowercasing and the dot\<close>

lemma toLowerChar_idem: "toLowerChar (toLowerChar c) = toLowerChar c"
  by (simp add: toLowerChar_def Let_def)

lemma toLowerCase_idem: "toLowerCase (toLowerCase s) = toLowerCase s"
  by (simp add: toLowerCase_def toLowerChar_idem)

lemma isDigit_toLowerChar: "isDigit (toLowerChar c) = isDigit c"
  by (auto simp add: isDigit_def toLowerChar_def Let_def)

lemma toLowerChar_dot: "toLowerChar CHR ''.'' = CHR ''.''"
  by (simp add: toLowerChar_def)

lemma isDigit_dot: "\<not> isDigit CHR ''.''"
  by (simp add: isDigit_def)

lemma toLowerCase_replaceFirstDigit:
  "toLowerCase (replaceFirstDigit s) = replaceFirstDigit (toLowerCase s)"
  by (induction s) (simp_all add: toLowerCase_def isDigit_toLowerChar toLowerChar_dot)

lemma list_ex_isDigit_toLowerCase: "list_ex isDigit (toLowerCase s) = list_ex isDigit s"
  by (induction s) (simp_all add: toLowerCase_def isDigit_toLowerChar)

lemma replaceFirstDigit_no_digit: "\<not> list_ex isDigit s \<Longrightarrow> replaceFirstDigit s = s"
  by (induction s) simp_all

lemma length_replaceFirstDigit:
  "length (replaceFirstDigit s) = (if list_ex isDigit s then length s + 1 else length s)"
  by (induction s) simp_all

lemma list_ex_isDigit_replaceFirstDigit:
  "list_ex isDigit (replaceFirstDigit s) = list_ex isDigit s"
  by (induction s) (simp_all add: isDigit_dot)

lemma replaceFirstDigit_idem_iff:
  "replaceFirstDigit (replaceFirstDigit s) = replaceFirstDigit s \<longleftrightarrow> \<not> list_ex isDigit s"
proof
  assume eq: "replaceFirstDigit (replaceFirstDigit s) = replaceFirstDigit s"
  show "\<not> list_ex isDigit s"
  proof
    assume d: "list_ex isDigit s"
    then have "length (replaceFirstDigit (replaceFirstDigit s)) = length (replaceFirstDigit s) + 1"
      by (simp add: length_replaceFirstDigit list_ex_isDigit_replaceFirstDigit)
    with eq show False by simp
  qed
next
  assume "\<not> list_ex isDigit s"
  then show "replaceFirstDigit (replaceFirstDigit s) = replaceFirstDigit s"
    by (simp add: replaceFirstDigit_no_digit)
qed

lemma entryMatches_sublist:
  "entryMatches codecLower u \<longleftrightarrow> sublist u codecLower \<or> sublist (replaceFirstDigit u) codecLower"
  by (simp add: entryMatches_def includesStr_sublist)

lemma codecUnsupported_sublist:
  "codecUnsupported R c \<longleftrightarrow>
     (\<exists>u \<in> set (unsupportedCodecs R).
        sublist u (toLowerCase c) \<or> sublist (replaceFirstDigit u) (toLowerCase c))"
  by (simp add: codecUnsupported_def Let_def list_ex_iff entryMatches_sublist)

lemma wouldConvertOf_iff:
  "wouldConvertOf R c ext \<longleftrightarrow> codecUnsupported R c \<or> ext \<in> set (conversionFormats R)"
  by (simp add: wouldConvertOf_def)

lemma h263_forms_lower:
  assumes "c \<in> {''h263'', ''H263'', ''h.263'', ''H.263''}"
  shows "toLowerCase c = ''h263'' \<or> toLowerCase c = ''h.263''"
  using assms by (auto simp add: toLowerCase_def toLowerChar_def char_of_eq_iff)

lemma replaceFirstDigit_h263: "replaceFirstDigit ''h263'' = ''h.263''"
  by (simp add: isDigit_def)

lemma codecUnsupported_h263:
  assumes "''h263'' \<in> set (unsupportedCodecs R)"
    and "c \<in> {''h263'', ''H263'', ''h.263'', ''H.263''}"
  shows "codecUnsupported R c"
proof -
  have "sublist ''h263'' (toLowerCase c) \<or> sublist (replaceFirstDigit ''h263'') (toLowerCase c)"
    using h263_forms_lower [OF assms(2)] by (auto simp only: replaceFirstDigit_h263 sublist_order.order_refl)
  with assms(1) show ?thesis
    unfolding codecUnsupported_sublist by blast
qed

subsection \<open>Effects of the steps of a probe\<close>

lemma trace_perform: "trace (perform p ev s) = trace s @ [ev]"
  by (simp add: perform_def)

lemma results_perform: "results (perform p ev s) = results s"
  by (simp add: perform_def)

lemma clock_perform: "clock (perform p ev s) = clock s + waitOf ev + lag p (trace s) ev"
  by (simp add: perform_def)

lemma trace_dateNow: "trace (snd (dateNow s)) = trace s @ [DateNow]"
  by (simp add: dateNow_def)

lemma clock_dateNow: "clock (snd (dateNow s)) = clock s"
  by (simp add: dateNow_def)

lemma results_dateNow: "results (snd (dateNow s)) = results s"
  by (simp add: dateNow_def)

lemma fst_dateNow: "fst (dateNow s) = clock s"
  by (simp add: dateNow_def)

lemma tryGetProperty_eq:
  "tryGetProperty p n s = (orNull (getProperty p (trace s) n), perform p (GetProperty n) s)"
  by (simp add: tryGetProperty_def orNull_def split: sum.splits)

lemma trace_readProperties:
  "trace (snd (readProperties p s)) = trace s @ map GetProperty propertyNames"
  by (simp add: readProperties_def tryGetProperty_eq trace_perform propertyNames_def)

lemma results_readProperties: "results (snd (readProperties p s)) = results s"
  by (simp add: readProperties_def tryGetProperty_eq results_perform)

lemma clock_readProperties: "clock s \<le> clock (snd (readProperties p s))"
  by (simp add: readProperties_def tryGetProperty_eq clock_perform)

lemma fst_readProperties:
  "fst (readProperties p s) =
    (orNull (getProperty p (trace s) ''video-codec''),
     orNull (getProperty p (trace s @ map GetProperty (take 1 propertyNames)) ''file-format''),
     orNull (getProperty p (trace s @ map GetProperty (take 2 propertyNames)) ''video-params/w''),
     orNull (getProperty p (trace s @ map GetProperty (take 3 propertyNames)) ''video-params/h''),
     orNull (getProperty p (trace s @ map GetProperty (take 4 propertyNames)) ''container-fps''),
     orNull (getProperty p (trace s @ map GetProperty (take 5 propertyNames)) ''duration''))"
  by (simp add: readProperties_def tryGetProperty_eq trace_perform propertyNames_def)

lemma trace_loaded: "trace (loaded p f s) = trace s @ [DateNow, Load f]"
  by (simp add: loaded_def trace_perform trace_dateNow)

lemma results_loaded: "results (loaded p f s) = results s"
  by (simp add: loaded_def results_perform results_dateNow)

lemma clock_loaded: "clock (loaded p f s) = clock s + lag p (trace s @ [DateNow]) (Load f)"
  by (simp add: loaded_def clock_perform clock_dateNow trace_dateNow)

lemma trace_settled:
  "trace (settled p f s) = trace s @ [DateNow, Load f, DateNow, Sleep 200]"
  by (simp add: settled_def settle_def trace_loaded trace_perform trace_dateNow)

lemma results_settled: "results (settled p f s) = results s"
  by (simp add: settled_def settle_def results_loaded results_perform results_dateNow)

lemma clock_settled:
  "clock (settled p f s) =
     clock s + lag p (trace s @ [DateNow]) (Load f) + 200
       + lag p (trace s @ [DateNow, Load f, DateNow]) (Sleep 200)"
  by (simp add: settled_def settle_def clock_loaded trace_loaded clock_perform clock_dateNow
      trace_dateNow)

subsection \<open>String conversion and the handler\<close>

lemma toString_Inl: "toString H v = Inl e \<Longrightarrow> e = cannotConvert \<and> v = JObject None"
  by (auto simp add: toString_def split: jsval.splits option.splits)

lemma toString_convertible: "convertible v \<Longrightarrow> \<exists>text. toString H v = Inr text"
  by (auto simp add: toString_def convertible_def split: jsval.splits option.splits)

lemma toString_JStr: "toString H (JStr text) = Inr text"
  by (simp add: toString_def)

lemma errorMsg_Inl: "errorMsg e = Inl x \<Longrightarrow> x = cannotConvert"
  by (cases e) (auto split: if_splits option.splits)




lemma handled_JsError: "handled H fn (JsError m) = [Failure fn (JStr m)]"
  by (simp add: handled_def toString_JStr)

lemma handled_reportable:
  assumes "reportable e"
  shows "\<exists>message. errorMsg e = Inr message \<and> handled H fn e = [Failure fn message]"
proof (cases "errorMsg e")
  case (Inl x)
  with assms show ?thesis by (simp add: reportable_def)
next
  case (Inr message)
  with assms have "convertible message" by (simp add: reportable_def)
  then obtain t where "toString H message = Inr t"
    using toString_convertible by blast
  with Inr show ?thesis by (simp add: handled_def)
qed

lemma handled_not_reportable:
  assumes "\<not> reportable e"
  shows "handled H fn e = []"
proof (cases "errorMsg e")
  case (Inl x)
  then show ?thesis by (simp add: handled_def)
next
  case (Inr message)
  with assms have "message = JObject None" by (simp add: reportable_def convertible_def)
  with Inr show ?thesis by (simp add: handled_def toString_def)
qed

lemma results_catchBlock: "results (snd (catchBlock H fn e s)) = results s @ handled H fn e"
  by (simp add: catchBlock_def handled_def split: sum.splits)

lemma trace_catchBlock: "trace (snd (catchBlock H fn e s)) = trace s"
  by (simp add: catchBlock_def split: sum.splits)

lemma clock_catchBlock: "clock (snd (catchBlock H fn e s)) = clock s"
  by (simp add: catchBlock_def split: sum.splits)

lemma fst_catchBlock:
  "fst (catchBlock H fn e s) = (if reportable e then Inr False else Inl cannotConvert)"
proof (cases "errorMsg e")
  case (Inl x)
  then show ?thesis
    using errorMsg_Inl [OF Inl] by (simp add: catchBlock_def reportable_def)
next
  case (Inr message)
  show ?thesis
  proof (cases "toString H message")
    case (Inl x)
    with Inr toString_Inl [OF Inl] show ?thesis
      by (simp add: catchBlock_def reportable_def convertible_def)
  next
    case (Inr t)
    then have "message \<noteq> JObject None"
      by (auto simp add: toString_def)
    with Inr \<open>errorMsg e = Inr message\<close> show ?thesis
      by (simp add: catchBlock_def reportable_def convertible_def)
  qed
qed

lemma tryBlock_rejected:
  assumes "load p (trace s @ [DateNow]) f = Some e"
  shows "tryBlock H R p f fn ext s = (Inl e, loaded p f s)"
  using assms
  by (simp add: tryBlock_def playerLoad_def loaded_def split_def trace_dateNow)

lemma tryBlock_loaded:
  assumes "load p (trace s @ [DateNow]) f = None"
  shows "tryBlock H R p f (basename H f) (toLowerCase (extname H f)) s =
           (case built H R p f s of
              Inl e \<Rightarrow> (Inl e, probed p f s)
            | Inr r \<Rightarrow> pushAndPrint H r (probed p f s))"
  unfolding probed_def built_def settled_def loaded_def
  using assms
  by (simp add: tryBlock_def playerLoad_def split_def Let_def trace_dateNow fst_dateNow
      clock_dateNow clock_perform)

lemma trace_probed:
  "trace (probed p f s) =
     trace s @ [DateNow, Load f, DateNow, Sleep 200] @ map GetProperty propertyNames"
  by (simp add: probed_def trace_readProperties trace_settled)

lemma results_probed: "results (probed p f s) = results s"
  by (simp add: probed_def results_readProperties results_settled)

lemma clock_probed:
  "clock s + lag p (trace s @ [DateNow]) (Load f) + 200 \<le> clock (probed p f s)"
proof -
  have "clock (settled p f s) \<le> clock (snd (readProperties p (settled p f s)))"
    by (rule clock_readProperties)
  then show ?thesis
    by (simp add: probed_def clock_settled)
qed

lemma pushAndPrint_state:
  "trace (snd (pushAndPrint H r s)) = trace s
   \<and> clock (snd (pushAndPrint H r s)) = clock s
   \<and> results (snd (pushAndPrint H r s)) = results s @ [Success r]"
  by (simp add: pushAndPrint_def Let_def split: sum.splits)

lemma fst_pushAndPrint:
  "fst (pushAndPrint H r s) =
     (case toString H (format r) of Inl e \<Rightarrow> Inl e | Inr text \<Rightarrow> Inr True)"
  by (simp add: pushAndPrint_def Let_def split: sum.splits)

lemma testVideo_eq:
  "testVideo H R p f s =
     (case fst (tryBlock H R p f (basename H f) (toLowerCase (extname H f)) s) of
        Inr b \<Rightarrow> (Inr b, snd (tryBlock H R p f (basename H f) (toLowerCase (extname H f)) s))
      | Inl error \<Rightarrow>
          catchBlock H (basename H f) error
            (snd (tryBlock H R p f (basename H f) (toLowerCase (extname H f)) s)))"
  by (simp add: testVideo_def split_def Let_def)

lemma testVideo_rejected:
  assumes "load p (trace s @ [DateNow]) f = Some e"
  shows "testVideo H R p f s = catchBlock H (basename H f) e (loaded p f s)"
  using assms by (simp add: testVideo_eq tryBlock_rejected)

lemma testVideo_not_built:
  assumes "load p (trace s @ [DateNow]) f = None" and "built H R p f s = Inl e"
  shows "testVideo H R p f s = catchBlock H (basename H f) e (probed p f s)"
  using assms by (simp add: testVideo_eq tryBlock_loaded)

lemma testVideo_built:
  assumes "load p (trace s @ [DateNow]) f = None" and "built H R p f s = Inr r"
  shows "testVideo H R p f s =
           (case toString H (format r) of
              Inl e \<Rightarrow> catchBlock H (basename H f) e (snd (pushAndPrint H r (probed p f s)))
            | Inr text \<Rightarrow> (Inr True, snd (pushAndPrint H r (probed p f s))))"
  using assms
  by (simp add: testVideo_eq tryBlock_loaded fst_pushAndPrint split: sum.splits)

lemma results_testVideo:
  "results (snd (testVideo H R p f s)) = results s @ stored H R p f s"
proof (cases "load p (trace s @ [DateNow]) f")
  case (Some e)
  then show ?thesis
    by (simp add: testVideo_rejected results_catchBlock results_loaded stored_def)
next
  case None
  show ?thesis
  proof (cases "built H R p f s")
    case (Inl e)
    with None show ?thesis
      by (simp add: testVideo_not_built results_catchBlock results_probed stored_def)
  next
    case (Inr r)
    with None show ?thesis
      by (simp add: testVideo_built results_catchBlock pushAndPrint_state results_probed
          stored_def split: sum.splits)
  qed
qed

lemma trace_testVideo:
  "trace (snd (testVideo H R p f s)) =
     (case load p (trace s @ [DateNow]) f of
        Some e \<Rightarrow> trace s @ [DateNow, Load f]
      | None \<Rightarrow>
          trace s @ [DateNow, Load f, DateNow, Sleep 200] @ map GetProperty propertyNames)"
proof (cases "load p (trace s @ [DateNow]) f")
  case (Some e)
  then show ?thesis
    by (simp add: testVideo_rejected trace_catchBlock trace_loaded)
next
  case None
  show ?thesis
  proof (cases "built H R p f s")
    case (Inl e)
    with None show ?thesis
      by (simp add: testVideo_not_built trace_catchBlock trace_probed)
  next
    case (Inr r)
    with None show ?thesis
      by (simp add: testVideo_built trace_catchBlock pushAndPrint_state trace_probed
          split: sum.splits)
  qed
qed

lemma clock_testVideo_loaded:
  assumes "load p (trace s @ [DateNow]) f = None"
  shows "clock (snd (testVideo H R p f s)) = clock (probed p f s)"
proof (cases "built H R p f s")
  case (Inl e)
  with assms show ?thesis
    by (simp add: testVideo_not_built clock_catchBlock)
next
  case (Inr r)
  with assms show ?thesis
    by (simp add: testVideo_built clock_catchBlock pushAndPrint_state split: sum.splits)
qed

subsection \<open>The result object and what a probe stores\<close>

lemma fixedOrNA_null: "fixedOrNA H x JNull = Inr ''N/A''"
  by (simp add: fixedOrNA_def)

lemma fixedOrNA_Inl:
  "fixedOrNA H x v = Inl e \<Longrightarrow> e = JsError (x @ ''.toFixed is not a function'')"
  by (auto simp add: fixedOrNA_def split: if_splits jsval.splits)

lemma buildResult_Inr:
  assumes "buildResult H R fn ext lt props = Inr e"
  shows "fst props = JStr (codec e) \<and> codec e \<noteq> [] \<and> filename e = fn \<and> loadTime e = lt
         \<and> wouldConvert e = wouldConvertOf R (codec e) ext
         \<and> reason e = reasonOf R (codec e) ext"
  using assms
  by (auto simp add: buildResult_def split_def Let_def split: if_splits jsval.splits sum.splits)

lemma buildResult_Inr_fps:
  assumes "buildResult H R fn ext lt (c, fo, w, h, fp, d) = Inr e"
  shows "fixedOrNA H ''fps'' fp = Inr (fps e) \<and> fixedOrNA H ''duration'' d = Inr (duration e)
         \<and> format e = fo"
  using assms
  by (auto simp add: buildResult_def split: if_splits jsval.splits sum.splits)

lemma buildResult_Inl:
  assumes "buildResult H R fn ext lt props = Inl e"
  shows "\<exists>m. e = JsError m \<and> m \<in> probeErrors"
  using assms
  by (auto simp add: buildResult_def split_def cannotConvert_def probeErrors_def
      split: if_splits jsval.splits sum.splits dest!: fixedOrNA_Inl toString_Inl)


lemma built_Inr:
  assumes "built H R p f s = Inr e"
  shows "getProperty p (trace s @ [DateNow, Load f, DateNow, Sleep 200]) ''video-codec''
           = Inr (JStr (codec e))
         \<and> codec e \<noteq> [] \<and> filename e = basename H f
         \<and> loadTime e = lag p (trace s @ [DateNow]) (Load f)
         \<and> wouldConvert e = wouldConvertOf R (codec e) (toLowerCase (extname H f))
         \<and> reason e = reasonOf R (codec e) (toLowerCase (extname H f))"
proof -
  note b = buildResult_Inr [OF assms [unfolded built_def]]
  from b have "orNull (getProperty p (trace (settled p f s)) ''video-codec'') = JStr (codec e)"
    by (simp add: fst_readProperties)
  then have "getProperty p (trace s @ [DateNow, Load f, DateNow, Sleep 200]) ''video-codec''
                  = Inr (JStr (codec e))"
    by (simp add: trace_settled orNull_def split: sum.splits)
  with b show ?thesis by simp
qed


lemma built_Inl:
  assumes "built H R p f s = Inl e"
  obtains m where "e = JsError m" and "m \<in> probeErrors"
  using buildResult_Inl [OF assms [unfolded built_def]] by (elim exE conjE)

lemma stored_Success:
  assumes "stored H R p f s = Success e # rest"
  shows "load p (trace s @ [DateNow]) f = None \<and> built H R p f s = Inr e"
proof (cases "load p (trace s @ [DateNow]) f")
  case (Some x)
  show ?thesis
  proof (cases "reportable x")
    case True
    from handled_reportable [OF True, of H "basename H f"]
    obtain message where "handled H (basename H f) x = [Failure (basename H f) message]"
      by (elim exE conjE)
    with Some assms show ?thesis
      by (simp add: stored_def)
  next
    case False
    from handled_not_reportable [OF False, of H "basename H f"] Some assms show ?thesis
      by (simp add: stored_def)
  qed
next
  case None
  show ?thesis
  proof (cases "built H R p f s")
    case (Inl x)
    then obtain m where "x = JsError m" by (rule built_Inl)
    with None Inl assms show ?thesis
      by (simp add: stored_def handled_JsError)
  next
    case (Inr r)
    with None assms show ?thesis
      by (simp add: stored_def)
  qed
qed

lemma testVideo_Success:
  assumes "results (snd (testVideo H R p f s)) = results s @ Success e # rest"
  shows "load p (trace s @ [DateNow]) f = None \<and> built H R p f s = Inr e"
  using assms stored_Success [of H R p f s e rest]
  by (simp add: results_testVideo)



subsection \<open>Probes that return, and the batch\<close>


lemma built_fps:
  assumes "built H R p f s = Inr r"
  shows "fixedOrNA H ''fps''
           (orNull (getProperty p
              (trace s @ [DateNow, Load f, DateNow, Sleep 200]
                 @ map GetProperty (take 4 propertyNames)) ''container-fps'')) = Inr (fps r)"
proof -
  obtain c fo w h fp d where pr: "fst (readProperties p (settled p f s)) = (c, fo, w, h, fp, d)"
    by (metis prod_cases6)
  with assms have "fixedOrNA H ''fps'' fp = Inr (fps r)"
    using buildResult_Inr_fps [of H R _ _ _ c fo w h fp d r] by (simp add: built_def)
  moreover from pr have "fp = orNull (getProperty p
      (trace (settled p f s) @ map GetProperty (take 4 propertyNames)) ''container-fps'')"
    by (simp add: fst_readProperties)
  ultimately show ?thesis
    by (simp add: trace_settled)
qed

lemma testVideo_escapes:
  assumes "load p (trace s @ [DateNow]) f = Some e" and "\<not> reportable e"
  shows "testVideo H R p f s = (Inl cannotConvert, loaded p f s)"
proof -
  have "snd (catchBlock H (basename H f) e (loaded p f s)) = loaded p f s"
    using assms(2)
    by (auto simp add: catchBlock_def reportable_def convertible_def toString_def
        split: sum.splits)
  moreover have "fst (catchBlock H (basename H f) e (loaded p f s)) = Inl cannotConvert"
    using assms(2) by (simp add: fst_catchBlock)
  ultimately show ?thesis
    using assms(1) by (simp add: testVideo_rejected prod_eq_iff)
qed






subsection \<open>Runs in the example world\<close>

lemma demo_fixed: "demoToFixed2 (25 / 2) = ''12.50''"
  by code_simp

lemma demo_str:
  "demoNumToStr 352 = ''352''" "demoNumToStr 288 = ''288''"
  "demoNumToStr 640 = ''640''" "demoNumToStr 480 = ''480''"
  by code_simp+

lemma demo_paths:
  "demoBasename ''clips/old.mp4'' = ''old.mp4''"
  "toLowerCase (demoExtname ''clips/old.mp4'') = ''.mp4''"
  "demoBasename ''clips/slides.wmv'' = ''slides.wmv''"
  "toLowerCase (demoExtname ''clips/slides.wmv'') = ''.wmv''"
  "demoBasename ''clips/deck.mp4'' = ''deck.mp4''"
  "toLowerCase (demoExtname ''clips/deck.mp4'') = ''.mp4''"
  "demoBasename ''clips/broken.avi'' = ''broken.avi''"
  "toLowerCase (demoExtname ''clips/broken.avi'') = ''.avi''"
  "demoBasename ''clips/audio.mkv'' = ''audio.mkv''"
  "toLowerCase (demoExtname ''clips/audio.mkv'') = ''.mkv''"
  "demoBasename ''clips/odd.avi'' = ''odd.avi''"
  "toLowerCase (demoExtname ''clips/odd.avi'') = ''.avi''"
  "demoBasename ''clips/meta.mp4'' = ''meta.mp4''"
  "toLowerCase (demoExtname ''clips/meta.mp4'') = ''.mp4''"
  by code_simp+

lemma demo_classes:
  "wouldConvertOf VIDVUR_RULES ''H.263'' ''.mp4'' = True"
  "reasonOf VIDVUR_RULES ''H.263'' ''.mp4'' = Some ''Unsupported codec''"
  "wouldConvertOf VIDVUR_RULES ''wmv3image'' ''.wmv'' = True"
  "reasonOf VIDVUR_RULES ''wmv3image'' ''.wmv'' = Some ''Unsupported codec''"
  "wouldConvertOf VIDVUR_RULES ''wmv3image'' ''.mp4'' = True"
  "reasonOf VIDVUR_RULES ''wmv3image'' ''.mp4'' = Some ''Unsupported codec''"
  "wouldConvertOf VIDVUR_RULES ''h264'' ''.mp4'' = False"
  "reasonOf VIDVUR_RULES ''h264'' ''.mp4'' = None"
  by code_simp+

lemmas demo_unfold =
  testVideo_def tryBlock_def catchBlock_def pushAndPrint_def dateNow_def playerLoad_def
  settle_def perform_def readProperties_def tryGetProperty_def buildResult_def fixedOrNA_def
  toString_def cannotConvert_def Let_def
  demoHost_def demoPlayer_def oddPlayer_def s0_def demoProperty_def unavailable_def
  unprintable_def demo_fixed demo_str demo_paths demo_classes

lemma demo_old:
  "testVideo demoHost VIDVUR_RULES demoPlayer ''clips/old.mp4'' s0 =
     (Inr True,
      \<lparr>clock = 1218,
       trace =
         [DateNow, Load ''clips/old.mp4'', DateNow, Sleep 200,
          GetProperty ''video-codec'', GetProperty ''file-format'',
          GetProperty ''video-params/w'', GetProperty ''video-params/h'',
          GetProperty ''container-fps'', GetProperty ''duration''],
       results = [Success oldEntry]\<rparr>)"
  by (simp add: demo_unfold oldEntry_def)

lemma demo_slides:
  "fst (testVideo demoHost VIDVUR_RULES demoPlayer ''clips/slides.wmv'' s0) = Inr True"
  "results (snd (testVideo demoHost VIDVUR_RULES demoPlayer ''clips/slides.wmv'' s0)) =
     [Success slidesEntry]"
  by (simp_all add: demo_unfold slidesEntry_def)

lemma demo_deck:
  "results (snd (testVideo demoHost VIDVUR_RULES demoPlayer ''clips/deck.mp4'' s0)) =
     [Success deckEntry]"
  by (simp add: demo_unfold deckEntry_def)

lemma demo_broken:
  "testVideo demoHost VIDVUR_RULES demoPlayer ''clips/broken.avi'' s0 =
     (Inr False,
      \<lparr>clock = 1012,
       trace = [DateNow, Load ''clips/broken.avi''],
       results = [Failure ''broken.avi'' (JStr ''{}'')]\<rparr>)"
  by (simp add: demo_unfold)

lemma demo_audio:
  "testVideo demoHost VIDVUR_RULES demoPlayer ''clips/audio.mkv'' s0 =
     (Inr False,
      \<lparr>clock = 1218,
       trace =
         [DateNow, Load ''clips/audio.mkv'', DateNow, Sleep 200,
          GetProperty ''video-codec'', GetProperty ''file-format'',
          GetProperty ''video-params/w'', GetProperty ''video-params/h'',
          GetProperty ''container-fps'', GetProperty ''duration''],
       results = [Failure ''audio.mkv'' (JStr ''Could not detect video codec'')]\<rparr>)"
  by (simp add: demo_unfold)

lemma demo_batch:
  "fst (testFiles demoHost VIDVUR_RULES demoPlayer
          [''clips/broken.avi'', ''clips/old.mp4''] s0) = None"
  "results (snd (testFiles demoHost VIDVUR_RULES demoPlayer
              [''clips/broken.avi'', ''clips/old.mp4''] s0)) =
     [Failure ''broken.avi'' (JStr ''{}''), Success oldEntry]"
  by (simp_all add: demo_unfold oldEntry_def)


text \<open>
  Two runs with the player whose objects do not convert. A rejected load whose value
  cannot be turned into a message leaves \<open>testVideo\<close> by rejection: nothing is stored and
  the loop over the files ends there. A \<^verbatim>\<open>file-format\<close> that does not convert throws at
  line 126, after the successful entry has been pushed, and the handler then stores a
  failure for the same file.
\<close>

lemma odd_rejection_escapes:
  "testVideo demoHost VIDVUR_RULES oddPlayer ''clips/odd.avi'' s0 =
     (Inl cannotConvert,
      \<lparr>clock = 1012, trace = [DateNow, Load ''clips/odd.avi''], results = []\<rparr>)"
  "testFiles demoHost VIDVUR_RULES oddPlayer [''clips/odd.avi'', ''clips/meta.mp4''] s0 =
     (Some cannotConvert,
      \<lparr>clock = 1012, trace = [DateNow, Load ''clips/odd.avi''], results = []\<rparr>)"
  "runBatch demoHost VIDVUR_RULES oddPlayer [''clips/odd.avi'', ''clips/meta.mp4''] s0 =
     Inl cannotConvert"
  by (simp_all add: runBatch_def demo_unfold)

lemma odd_format_two_results:
  "fst (testVideo demoHost VIDVUR_RULES oddPlayer ''clips/meta.mp4'' s0) = Inr False"
  "results (snd (testVideo demoHost VIDVUR_RULES oddPlayer ''clips/meta.mp4'' s0)) =
     [Success metaEntry,
      Failure ''meta.mp4'' (JStr ''Cannot convert object to primitive value'')]"
  by (simp_all add: demo_unfold metaEntry_def)

subsection \<open>The dotted form of an entry\<close>

lemma isDigit_iff: "isDigit c \<longleftrightarrow> c \<in> set ''0123456789''"
proof -
  have "c \<in> set ''0123456789'' \<longleftrightarrow> (of_char c :: nat) \<in> of_char ` set ''0123456789''"
    by (simp only: inj_image_mem_iff [OF inj_of_char])
  also have "\<dots> \<longleftrightarrow> 48 \<le> (of_char c :: nat) \<and> (of_char c :: nat) \<le> 57"
    by (simp; arith)
  finally show ?thesis
    by (simp add: isDigit_def Let_def)
qed

lemma replaceFirstDigit_at_first_digit:
  assumes "isDigit d" and "\<forall>c \<in> set pre. \<not> isDigit c"
  shows "replaceFirstDigit (pre @ d # post) = pre @ CHR ''.'' # d # post"
  using assms by (induction pre) simp_all

lemma disjoint_forall: "A \<inter> D = {} \<longleftrightarrow> (\<forall>c \<in> A. c \<notin> D)"
  by blast

lemma no_digits_iff: "set pre \<inter> set ''0123456789'' = {} \<longleftrightarrow> (\<forall>c \<in> set pre. \<not> isDigit c)"
  by (simp only: disjoint_forall isDigit_iff)

lemma dottedForms_alt:
  "dottedForms u =
     {pre @ CHR ''.'' # d # post | pre d post.
        u = pre @ d # post \<and> isDigit d \<and> (\<forall>c \<in> set pre. \<not> isDigit c)}"
  by (simp only: dottedForms_def disjoint_forall isDigit_iff)

lemma dottedForms_eq:
  "dottedForms u = (if list_ex isDigit u then {replaceFirstDigit u} else {})"
proof (cases "list_ex isDigit u")
  case True
  then have "\<exists>x \<in> set u. isDigit x"
    by (simp add: list_ex_iff)
  from split_list_first_prop [OF this]
  obtain pre d post where u: "u = pre @ d # post" "isDigit d" "\<forall>c \<in> set pre. \<not> isDigit c"
    by (elim exE conjE)
  have "pre @ CHR ''.'' # d # post \<in> dottedForms u"
    unfolding dottedForms_alt
    by (rule CollectI, intro exI conjI, rule refl, rule u(1), rule u(2), rule u(3))
  then have here: "replaceFirstDigit u \<in> dottedForms u"
    using u(1) replaceFirstDigit_at_first_digit [OF u(2,3), of post] by simp
  have only: "v = replaceFirstDigit u" if "v \<in> dottedForms u" for v
  proof -
    from that [unfolded dottedForms_alt mem_Collect_eq]
    obtain a b c where "v = a @ CHR ''.'' # b # c" "u = a @ b # c"
      "isDigit b" "\<forall>x \<in> set a. \<not> isDigit x"
      by (elim exE conjE)
    then show ?thesis
      using replaceFirstDigit_at_first_digit [of b a c] by simp
  qed
  have "dottedForms u = {replaceFirstDigit u}"
  proof (rule set_eqI)
    fix v
    show "v \<in> dottedForms u \<longleftrightarrow> v \<in> {replaceFirstDigit u}"
      using here only [of v] by (simp only: singleton_iff) (rule iffI; simp)
  qed
  with True show ?thesis by simp
next
  case False
  have "dottedForms u = {}"
  proof (rule ccontr)
    assume "dottedForms u \<noteq> {}"
    then obtain v where v: "v \<in> dottedForms u"
      by (simp only: ex_in_conv [symmetric]) (elim exE)
    from v [unfolded dottedForms_alt mem_Collect_eq]
    obtain a b c where "u = a @ b # c" "isDigit b"
      by (elim exE conjE)
    with False show False by (simp add: list_ex_iff)
  qed
  with False show ?thesis by simp
qed

lemma codecUnsupported_containsEntry:
  "codecUnsupported R c \<longleftrightarrow> containsEntry R (toLowerCase c)"
proof -
  have "(sublist u t \<or> sublist (replaceFirstDigit u) t) \<longleftrightarrow>
        ((\<exists>before after. t = before @ u @ after)
         \<or> (\<exists>v \<in> dottedForms u. \<exists>before after. t = before @ v @ after))" for u t
    by (cases "list_ex isDigit u")
      (simp_all add: dottedForms_eq sublist_def replaceFirstDigit_no_digit)
  then show ?thesis
    by (simp add: codecUnsupported_sublist containsEntry_def)
qed

lemma testVideo_Success_fields:
  assumes "results (snd (testVideo H R p f s)) = results s @ Success e # rest"
  shows "filename e = basename H f
         \<and> codec e \<noteq> []
         \<and> loadTime e = lag p (trace s @ [DateNow]) (Load f)
         \<and> wouldConvert e = wouldConvertOf R (codec e) (toLowerCase (extname H f))
         \<and> reason e = reasonOf R (codec e) (toLowerCase (extname H f))"
proof -
  from testVideo_Success [OF assms] have "built H R p f s = Inr e"
    by (rule conjunct2)
  from built_Inr [OF this] show ?thesis
    by simp
qed

section \<open>Classification\<close>

text \<open>
  C1. For every rule set that contains the codec entry \<^verbatim>\<open>h263\<close> and every probed codec
  string equal to \<^verbatim>\<open>h263\<close> or \<^verbatim>\<open>h.263\<close> in any letter case, the classification
  reports an unsupported codec: \<open>wouldConvert\<close> is true and the reason is
  \<^verbatim>\<open>Unsupported codec\<close>. Both the plain and the dotted form of the entry match, in the
  classification itself and in every successful entry that a probe stores.
\<close>

theorem h263_plain_and_dotted_match:
  assumes "''h263'' \<in> set (unsupportedCodecs R)"
    and "c \<in> {''h263'', ''H263'', ''h.263'', ''H.263''}"
  shows "codecUnsupported R c
         \<and> wouldConvertOf R c ext
         \<and> reasonOf R c ext = Some ''Unsupported codec''
         \<and> (\<forall>e rest.
               results (snd (testVideo H R p f s)) = results s @ Success e # rest \<and> codec e = c
               \<longrightarrow> wouldConvert e \<and> reason e = Some ''Unsupported codec'')"
proof -
  have m: "codecUnsupported R c"
    using assms by (rule codecUnsupported_h263)
  have pure: "wouldConvertOf R c x \<and> reasonOf R c x = Some ''Unsupported codec''" for x
    using m by (simp add: reasonOf_def wouldConvertOf_def)
  have run: "wouldConvert e \<and> reason e = Some ''Unsupported codec''"
    if "results (snd (testVideo H R p f s)) = results s @ Success e # rest" and "codec e = c"
    for e rest
    using testVideo_Success_fields [OF that(1)] that(2) pure by simp
  from m pure run show ?thesis by blast
qed

theorem h263_plain_and_dotted_match_witness:
  "''h263'' \<in> set (unsupportedCodecs VIDVUR_RULES)
   \<and> ''H.263'' \<in> {''h263'', ''H263'', ''h.263'', ''H.263''}
   \<and> results (snd (testVideo demoHost VIDVUR_RULES demoPlayer ''clips/old.mp4'' s0))
        = results s0 @ Success oldEntry # []
   \<and> codec oldEntry = ''H.263''
   \<and> codecUnsupported VIDVUR_RULES ''H.263''
   \<and> wouldConvertOf VIDVUR_RULES ''H.263'' ''.mp4''
   \<and> reasonOf VIDVUR_RULES ''H.263'' ''.mp4'' = Some ''Unsupported codec''
   \<and> wouldConvert oldEntry \<and> reason oldEntry = Some ''Unsupported codec''"
proof -
  have h1: "''h263'' \<in> set (unsupportedCodecs VIDVUR_RULES)"
    by (simp add: VIDVUR_RULES_def VIDVUR_UNSUPPORTED_CODECS_def)
  have h2: "''H.263'' \<in> {''h263'', ''H263'', ''h.263'', ''H.263''}"
    by simp
  have h3: "results (snd (testVideo demoHost VIDVUR_RULES demoPlayer ''clips/old.mp4'' s0))
              = results s0 @ Success oldEntry # []"
    by (simp add: demo_old) (simp add: s0_def)
  have h4: "codec oldEntry = ''H.263''"
    by (simp add: oldEntry_def)
  note t = h263_plain_and_dotted_match
         [OF h1 h2, of "''.mp4''" demoHost demoPlayer "''clips/old.mp4''" s0]
  from t have a: "codecUnsupported VIDVUR_RULES ''H.263''"
    by (rule conjunct1)
  from t have b: "wouldConvertOf VIDVUR_RULES ''H.263'' ''.mp4''"
    by (rule conjunct1 [OF conjunct2])
  from t have c: "reasonOf VIDVUR_RULES ''H.263'' ''.mp4'' = Some ''Unsupported codec''"
    by (rule conjunct1 [OF conjunct2 [OF conjunct2]])
  from t have "\<forall>e rest.
      results (snd (testVideo demoHost VIDVUR_RULES demoPlayer ''clips/old.mp4'' s0))
        = results s0 @ Success e # rest \<and> codec e = ''H.263''
      \<longrightarrow> wouldConvert e \<and> reason e = Some ''Unsupported codec''"
    by (rule conjunct2 [OF conjunct2 [OF conjunct2]])
  then have d: "wouldConvert oldEntry \<and> reason oldEntry = Some ''Unsupported codec''"
    using h3 h4 by (elim allE [of _ oldEntry] allE [of _ "[]"]) (rule mp, assumption, rule conjI)
  show ?thesis
    by (rule conjI [OF h1 conjI [OF h2 conjI [OF h3 conjI [OF h4 conjI [OF a conjI [OF b
          conjI [OF c d]]]]]]])
qed

text \<open>
  C2, as amended. For every probe that stores a successful entry and every rule set,
  \<open>wouldConvert\<close> is true exactly when the lowercased codec string contains, at some
  position, an entry of the unsupported-codec list or that entry with a dot before its
  first digit, or the lowercased extension of the file is in the list of container
  formats. The reason is \<^verbatim>\<open>Unsupported codec\<close> when the codec matched, also when the
  container matched too; it is \<^verbatim>\<open>Container format requires conversion\<close> when only the
  container matched; otherwise it is absent. The codec itself is lowercased and nothing
  else: no dot is put into it, and it is not compared for equality.
\<close>

theorem classification_verdict:
  assumes "results (snd (testVideo H R p f s)) = results s @ Success e # rest"
  shows "getProperty p (trace s @ [DateNow, Load f, DateNow, Sleep 200]) ''video-codec''
           = Inr (JStr (codec e))
         \<and> (wouldConvert e \<longleftrightarrow>
              containsEntry R (toLowerCase (codec e))
              \<or> toLowerCase (extname H f) \<in> set (conversionFormats R))
         \<and> reason e =
             (if containsEntry R (toLowerCase (codec e))
              then Some ''Unsupported codec''
              else if toLowerCase (extname H f) \<in> set (conversionFormats R)
              then Some ''Container format requires conversion''
              else None)"
proof -
  from testVideo_Success [OF assms] have b: "built H R p f s = Inr e"
    by (rule conjunct2)
  from built_Inr [OF b]
  have c: "getProperty p (trace s @ [DateNow, Load f, DateNow, Sleep 200]) ''video-codec''
                  = Inr (JStr (codec e))"
    and w: "wouldConvert e = wouldConvertOf R (codec e) (toLowerCase (extname H f))"
    and r: "reason e = reasonOf R (codec e) (toLowerCase (extname H f))"
    by simp_all
  show ?thesis
    using c w r
    by (simp add: reasonOf_def wouldConvertOf_iff codecUnsupported_containsEntry)
qed

theorem classification_verdict_witness:
  "results (snd (testVideo demoHost VIDVUR_RULES demoPlayer ''clips/slides.wmv'' s0))
     = results s0 @ Success slidesEntry # []
   \<and> (wouldConvert slidesEntry \<longleftrightarrow>
        containsEntry VIDVUR_RULES (toLowerCase (codec slidesEntry))
        \<or> toLowerCase (extname demoHost ''clips/slides.wmv'')
             \<in> set (conversionFormats VIDVUR_RULES))
   \<and> reason slidesEntry = Some ''Unsupported codec''
   \<and> toLowerCase (extname demoHost ''clips/slides.wmv'')
        \<in> set (conversionFormats VIDVUR_RULES)"
proof -
  have h: "results (snd (testVideo demoHost VIDVUR_RULES demoPlayer ''clips/slides.wmv'' s0))
             = results s0 @ Success slidesEntry # []"
    by (simp add: demo_slides) (simp add: s0_def)
  have x: "toLowerCase (extname demoHost ''clips/slides.wmv'')
             \<in> set (conversionFormats VIDVUR_RULES)"
    by (simp add: demoHost_def demo_paths VIDVUR_RULES_def VIDVUR_CONVERSION_FORMATS_def)
  have r: "reason slidesEntry = Some ''Unsupported codec''"
    by (simp add: slidesEntry_def)
  note t = classification_verdict [OF h]
  from t have w: "wouldConvert slidesEntry \<longleftrightarrow>
        containsEntry VIDVUR_RULES (toLowerCase (codec slidesEntry))
        \<or> toLowerCase (extname demoHost ''clips/slides.wmv'')
             \<in> set (conversionFormats VIDVUR_RULES)"
    by (rule conjunct1 [OF conjunct2])
  show ?thesis
    by (rule conjI [OF h conjI [OF w conjI [OF r x]]])
qed

text \<open>
  C2 as stated fails on the file \<^verbatim>\<open>clips/deck.mp4\<close> of the example world, whose codec
  is \<^verbatim>\<open>wmv3image\<close>. Its canonical form \<^verbatim>\<open>wmv.3image\<close> is neither an entry of the list
  nor the canonical form of one, and \<^verbatim>\<open>.mp4\<close> is not one of the container formats, yet
  the stored entry has \<open>wouldConvert\<close> true with the reason \<^verbatim>\<open>Unsupported codec\<close>.
\<close>

theorem contained_codec_without_canonical_match:
  "results (snd (testVideo demoHost VIDVUR_RULES demoPlayer ''clips/deck.mp4'' s0))
     = [Success deckEntry]
   \<and> codec deckEntry = ''wmv3image''
   \<and> canonicalizeCodec ''wmv3image'' = ''wmv.3image''
   \<and> \<not> canonicalMatch VIDVUR_RULES ''wmv3image''
   \<and> toLowerCase (extname demoHost ''clips/deck.mp4'') \<notin> set (conversionFormats VIDVUR_RULES)
   \<and> wouldConvert deckEntry
   \<and> reason deckEntry = Some ''Unsupported codec''"
proof -
  have a: "codec deckEntry = ''wmv3image'' \<and> wouldConvert deckEntry
           \<and> reason deckEntry = Some ''Unsupported codec''"
    by (simp add: deckEntry_def)
  have b: "canonicalizeCodec ''wmv3image'' = ''wmv.3image''"
    by (simp add: canonicalizeCodec_def toLowerCase_def toLowerChar_def isDigit_def)
  have "map canonicalizeCodec VIDVUR_UNSUPPORTED_CODECS =
          [''h.263'', ''h.263p'', ''mpeg.1video'', ''mpeg.2video'', ''msmpeg.4v2'',
           ''msmpeg.4v3'', ''wmv.1'', ''wmv.2'', ''wmv.3'', ''vc.1'', ''rv.40'', ''svq.1'',
           ''svq.3'', ''cinepak'', ''indeo.3'', ''indeo.5'']"
    by (simp add: VIDVUR_UNSUPPORTED_CODECS_def canonicalizeCodec_def toLowerCase_def
        toLowerChar_def isDigit_def)
  then have c: "\<not> canonicalMatch VIDVUR_RULES ''wmv3image''"
    by (simp add: canonicalMatch_def b VIDVUR_RULES_def) (simp add: VIDVUR_UNSUPPORTED_CODECS_def)
  have d: "toLowerCase (extname demoHost ''clips/deck.mp4'')
             \<notin> set (conversionFormats VIDVUR_RULES)"
    by (simp add: demoHost_def demo_paths VIDVUR_RULES_def VIDVUR_CONVERSION_FORMATS_def)
  from a b c d show ?thesis
    by (simp add: demo_deck)
qed

text \<open>
  C10. The codec is matched by substring containment, not by equality: for every probe
  that stores a successful entry whose lowercased codec string contains an entry of the
  unsupported-codec list, or the dotted form of that entry, at any position (also inside
  a longer, different codec name), \<open>wouldConvert\<close> is true and the reason is
  \<^verbatim>\<open>Unsupported codec\<close>.
\<close>

theorem codec_match_is_substring_containment:
  assumes "results (snd (testVideo H R p f s)) = results s @ Success e # rest"
    and "u \<in> set (unsupportedCodecs R)"
    and "toLowerCase (codec e) = before @ u @ after
         \<or> toLowerCase (codec e) = before @ replaceFirstDigit u @ after"
  shows "wouldConvert e \<and> reason e = Some ''Unsupported codec''"
proof -
  from assms(3)
  have "sublist u (toLowerCase (codec e)) \<or> sublist (replaceFirstDigit u) (toLowerCase (codec e))"
    unfolding sublist_def by blast
  with assms(2) have "codecUnsupported R (codec e)"
    unfolding codecUnsupported_sublist by blast
  with testVideo_Success_fields [OF assms(1)] show ?thesis
    by (simp add: reasonOf_def wouldConvertOf_def)
qed

theorem codec_match_is_substring_containment_witness:
  "results (snd (testVideo demoHost VIDVUR_RULES demoPlayer ''clips/slides.wmv'' s0))
     = results s0 @ Success slidesEntry # []
   \<and> ''wmv3'' \<in> set (unsupportedCodecs VIDVUR_RULES)
   \<and> toLowerCase (codec slidesEntry) = [] @ ''wmv3'' @ ''image''
   \<and> codec slidesEntry \<noteq> ''wmv3''
   \<and> wouldConvert slidesEntry \<and> reason slidesEntry = Some ''Unsupported codec''"
proof -
  have h1: "results (snd (testVideo demoHost VIDVUR_RULES demoPlayer ''clips/slides.wmv'' s0))
              = results s0 @ Success slidesEntry # []"
    by (simp add: demo_slides) (simp add: s0_def)
  have h2: "''wmv3'' \<in> set (unsupportedCodecs VIDVUR_RULES)"
    by (simp add: VIDVUR_RULES_def VIDVUR_UNSUPPORTED_CODECS_def)
  have h3: "toLowerCase (codec slidesEntry) = [] @ ''wmv3'' @ ''image''"
    by (simp add: slidesEntry_def toLowerCase_def toLowerChar_def)
  have h4: "codec slidesEntry \<noteq> ''wmv3''"
    by (simp add: slidesEntry_def)
  note t = codec_match_is_substring_containment [OF h1 h2 disjI1, OF h3]
  show ?thesis
    by (rule conjI [OF h1 conjI [OF h2 conjI [OF h3 conjI [OF h4 t]]]])
qed

text \<open>
  C3, as amended. The canonicalisation of a codec string (lowercasing, then a dot before
  the first digit) is idempotent exactly on the strings that contain no digit: on a string
  with a digit the second application puts a second dot before the same digit. The
  lowercasing step alone is idempotent.
\<close>

theorem canonicalizeCodec_idempotent_iff_no_digit:
  "(canonicalizeCodec (canonicalizeCodec c) = canonicalizeCodec c \<longleftrightarrow> \<not> list_ex isDigit c)
   \<and> toLowerCase (toLowerCase c) = toLowerCase c"
proof -
  have "canonicalizeCodec (canonicalizeCodec c) =
          replaceFirstDigit (replaceFirstDigit (toLowerCase c))"
    by (simp add: canonicalizeCodec_def toLowerCase_replaceFirstDigit toLowerCase_idem)
  then show ?thesis
    by (simp add: canonicalizeCodec_def replaceFirstDigit_idem_iff
        list_ex_isDigit_toLowerCase toLowerCase_idem)
qed

text \<open>
  C3 as stated fails at \<^verbatim>\<open>h263\<close>: one application gives \<^verbatim>\<open>h.263\<close>, two give
  \<^verbatim>\<open>h..263\<close>.
\<close>

theorem canonicalizeCodec_not_idempotent_h263:
  "canonicalizeCodec ''h263'' = ''h.263'' \<and>
   canonicalizeCodec (canonicalizeCodec ''h263'') = ''h..263'' \<and>
   canonicalizeCodec (canonicalizeCodec ''h263'') \<noteq> canonicalizeCodec ''h263''"
  by (simp add: canonicalizeCodec_def toLowerCase_def toLowerChar_def isDigit_def)

section \<open>The probe\<close>

text \<open>
  C7. The six property reads of a probe fail independently. Whatever the player answers,
  all six reads are made, in the order of \<open>propertyNames\<close>, and each variable holds the
  answer to its own read, or \<^verbatim>\<open>null\<close> when that read failed: a failed read changes
  neither the other values nor the reads that follow. Every probe whose load succeeds
  makes the six reads.
\<close>

theorem property_reads_independent:
  "trace (snd (readProperties p s)) = trace s @ map GetProperty propertyNames
   \<and> length propertyNames = 6
   \<and> fst (readProperties p s) =
       (orNull (getProperty p (trace s) ''video-codec''),
        orNull (getProperty p (trace s @ map GetProperty (take 1 propertyNames)) ''file-format''),
        orNull (getProperty p (trace s @ map GetProperty (take 2 propertyNames)) ''video-params/w''),
        orNull (getProperty p (trace s @ map GetProperty (take 3 propertyNames)) ''video-params/h''),
        orNull (getProperty p (trace s @ map GetProperty (take 4 propertyNames)) ''container-fps''),
        orNull (getProperty p (trace s @ map GetProperty (take 5 propertyNames)) ''duration''))
   \<and> (\<forall>e. orNull (Inl e) = JNull) \<and> (\<forall>v. orNull (Inr v) = v)
   \<and> (load p (trace s @ [DateNow]) f = None \<longrightarrow>
        trace (snd (testVideo H R p f s)) =
          trace s @ [DateNow, Load f, DateNow, Sleep 200] @ map GetProperty propertyNames)"
proof -
  have a: "trace (snd (readProperties p s)) = trace s @ map GetProperty propertyNames"
    by (rule trace_readProperties)
  have b: "length propertyNames = 6"
    by (simp add: propertyNames_def)
  have c: "\<forall>e. orNull (Inl e) = JNull"
    by (simp add: orNull_def)
  have c': "\<forall>v. orNull (Inr v) = v"
    by (simp add: orNull_def)
  have d: "load p (trace s @ [DateNow]) f = None \<longrightarrow>
        trace (snd (testVideo H R p f s)) =
          trace s @ [DateNow, Load f, DateNow, Sleep 200] @ map GetProperty propertyNames"
    by (simp add: trace_testVideo)
  show ?thesis
    by (rule conjI [OF a conjI [OF b conjI [OF fst_readProperties conjI [OF c conjI [OF c' d]]]]])
qed

theorem property_reads_independent_witness:
  "load demoPlayer (trace s0 @ [DateNow]) ''clips/audio.mkv'' = None
   \<and> getProperty demoPlayer (trace s0 @ [DateNow, Load ''clips/audio.mkv'', DateNow, Sleep 200])
        ''video-codec'' = Inl unavailable
   \<and> trace (snd (testVideo demoHost VIDVUR_RULES demoPlayer ''clips/audio.mkv'' s0)) =
        trace s0 @ [DateNow, Load ''clips/audio.mkv'', DateNow, Sleep 200]
          @ map GetProperty propertyNames"
proof -
  have h: "load demoPlayer (trace s0 @ [DateNow]) ''clips/audio.mkv'' = None"
    by (simp add: demoPlayer_def)
  have g: "getProperty demoPlayer
             (trace s0 @ [DateNow, Load ''clips/audio.mkv'', DateNow, Sleep 200])
             ''video-codec'' = Inl unavailable"
    by (simp add: demoPlayer_def s0_def demoProperty_def)
  note t = property_reads_independent
         [of demoPlayer s0 "''clips/audio.mkv''" demoHost VIDVUR_RULES]
  from t have "load demoPlayer (trace s0 @ [DateNow]) ''clips/audio.mkv'' = None \<longrightarrow>
        trace (snd (testVideo demoHost VIDVUR_RULES demoPlayer ''clips/audio.mkv'' s0)) =
          trace s0 @ [DateNow, Load ''clips/audio.mkv'', DateNow, Sleep 200]
            @ map GetProperty propertyNames"
    by (rule conjunct2 [OF conjunct2 [OF conjunct2 [OF conjunct2 [OF conjunct2]]]])
  from mp [OF this h] show ?thesis
    by (rule conjI [OF h conjI [OF g]])
qed

text \<open>
  C5, as amended. The frame rate is read from the property \<^verbatim>\<open>container-fps\<close> only. When
  that read fails the frame rate is \<^verbatim>\<open>null\<close> and is reported as \<^verbatim>\<open>N/A\<close>; the property
  \<^verbatim>\<open>video-params/fps\<close> is never queried.
\<close>

theorem fps_read_from_container_fps_only:
  "(\<exists>evs. trace (snd (testVideo H R p f s)) = trace s @ evs
       \<and> GetProperty ''video-params/fps'' \<notin> set evs
       \<and> (load p (trace s @ [DateNow]) f = None \<longrightarrow>
            count_list evs (GetProperty ''container-fps'') = 1))
   \<and> (\<forall>e rest err.
         results (snd (testVideo H R p f s)) = results s @ Success e # rest
         \<and> getProperty p
             (trace s @ [DateNow, Load f, DateNow, Sleep 200]
                @ map GetProperty (take 4 propertyNames)) ''container-fps'' = Inl err
         \<longrightarrow> fps e = ''N/A'')"
proof -
  have tr: "\<exists>evs. trace (snd (testVideo H R p f s)) = trace s @ evs
       \<and> GetProperty ''video-params/fps'' \<notin> set evs
       \<and> (load p (trace s @ [DateNow]) f = None \<longrightarrow>
            count_list evs (GetProperty ''container-fps'') = 1)"
  proof (cases "load p (trace s @ [DateNow]) f")
    case None
    then have "trace (snd (testVideo H R p f s)) =
        trace s @ ([DateNow, Load f, DateNow, Sleep 200] @ map GetProperty propertyNames)"
      by (simp add: trace_testVideo)
    moreover have "GetProperty ''video-params/fps''
        \<notin> set ([DateNow, Load f, DateNow, Sleep 200] @ map GetProperty propertyNames)"
      by (simp add: propertyNames_def)
    moreover have "count_list ([DateNow, Load f, DateNow, Sleep 200] @ map GetProperty propertyNames)
        (GetProperty ''container-fps'') = 1"
      by (simp add: propertyNames_def)
    ultimately show ?thesis
      by (intro exI [of _ "[DateNow, Load f, DateNow, Sleep 200] @ map GetProperty propertyNames"])
        simp
  next
    case (Some e)
    then have "trace (snd (testVideo H R p f s)) = trace s @ [DateNow, Load f]"
      by (simp add: trace_testVideo)
    moreover have "GetProperty ''video-params/fps'' \<notin> set [DateNow, Load f]"
      by simp
    ultimately show ?thesis
      using Some by (intro exI [of _ "[DateNow, Load f]"]) simp
  qed
  have na: "\<forall>e rest err.
         results (snd (testVideo H R p f s)) = results s @ Success e # rest
         \<and> getProperty p
             (trace s @ [DateNow, Load f, DateNow, Sleep 200]
                @ map GetProperty (take 4 propertyNames)) ''container-fps'' = Inl err
         \<longrightarrow> fps e = ''N/A''"
  proof (intro allI impI)
    fix e rest err
    assume h: "results (snd (testVideo H R p f s)) = results s @ Success e # rest
         \<and> getProperty p
             (trace s @ [DateNow, Load f, DateNow, Sleep 200]
                @ map GetProperty (take 4 propertyNames)) ''container-fps'' = Inl err"
    from testVideo_Success [OF conjunct1 [OF h]] have b: "built H R p f s = Inr e"
      by (rule conjunct2)
    from built_fps [OF b] conjunct2 [OF h] have "fixedOrNA H ''fps'' JNull = Inr (fps e)"
      by (simp add: orNull_def)
    then show "fps e = ''N/A''"
      by (simp add: fixedOrNA_null)
  qed
  show ?thesis
    by (rule conjI [OF tr na])
qed

theorem fps_read_from_container_fps_only_witness:
  "load demoPlayer (trace s0 @ [DateNow]) ''clips/old.mp4'' = None
   \<and> results (snd (testVideo demoHost VIDVUR_RULES demoPlayer ''clips/old.mp4'' s0))
        = results s0 @ Success oldEntry # []
   \<and> getProperty demoPlayer
        (trace s0 @ [DateNow, Load ''clips/old.mp4'', DateNow, Sleep 200]
           @ map GetProperty (take 4 propertyNames)) ''container-fps'' = Inl unavailable
   \<and> fps oldEntry = ''N/A''"
proof -
  have h1: "load demoPlayer (trace s0 @ [DateNow]) ''clips/old.mp4'' = None"
    by (simp add: demoPlayer_def)
  have h2: "results (snd (testVideo demoHost VIDVUR_RULES demoPlayer ''clips/old.mp4'' s0))
              = results s0 @ Success oldEntry # []"
    by (simp add: demo_old) (simp add: s0_def)
  have h3: "getProperty demoPlayer
        (trace s0 @ [DateNow, Load ''clips/old.mp4'', DateNow, Sleep 200]
           @ map GetProperty (take 4 propertyNames)) ''container-fps'' = Inl unavailable"
    by (simp add: demoPlayer_def s0_def propertyNames_def demoProperty_def)
  note t = fps_read_from_container_fps_only
         [of demoHost VIDVUR_RULES demoPlayer "''clips/old.mp4''" s0]
  from conjunct2 [OF t] have "results (snd (testVideo demoHost VIDVUR_RULES demoPlayer ''clips/old.mp4'' s0))
           = results s0 @ Success oldEntry # []
         \<and> getProperty demoPlayer
             (trace s0 @ [DateNow, Load ''clips/old.mp4'', DateNow, Sleep 200]
                @ map GetProperty (take 4 propertyNames)) ''container-fps'' = Inl unavailable
         \<longrightarrow> fps oldEntry = ''N/A''"
    by (elim allE [of _ oldEntry] allE [of _ "[]"] allE [of _ unavailable])
  from mp [OF this conjI [OF h2 h3]] show ?thesis
    by (rule conjI [OF h1 conjI [OF h2 conjI [OF h3]]])
qed

text \<open>
  C5 as stated fails on the file \<^verbatim>\<open>clips/old.mp4\<close> of the example world: the read of
  \<^verbatim>\<open>container-fps\<close> fails, and \<^verbatim>\<open>video-params/fps\<close> is not queried.
\<close>

theorem no_fallback_to_video_params_fps:
  "getProperty demoPlayer
     [DateNow, Load ''clips/old.mp4'', DateNow, Sleep 200,
      GetProperty ''video-codec'', GetProperty ''file-format'',
      GetProperty ''video-params/w'', GetProperty ''video-params/h'']
     ''container-fps'' = Inl unavailable
   \<and> GetProperty ''video-params/fps''
       \<notin> set (trace (snd (testVideo demoHost VIDVUR_RULES demoPlayer ''clips/old.mp4'' s0)))"
proof -
  have "getProperty demoPlayer
     [DateNow, Load ''clips/old.mp4'', DateNow, Sleep 200,
      GetProperty ''video-codec'', GetProperty ''file-format'',
      GetProperty ''video-params/w'', GetProperty ''video-params/h'']
     ''container-fps'' = Inl unavailable"
    by (simp add: demoPlayer_def demoProperty_def)
  moreover have "GetProperty ''video-params/fps''
       \<notin> set (trace (snd (testVideo demoHost VIDVUR_RULES demoPlayer ''clips/old.mp4'' s0)))"
    by (simp add: demo_old)
  ultimately show ?thesis by simp
qed

text \<open>
  C6, as amended. The elapsed load time is computed right after the load has completed,
  before the settle delay and before the property reads: the steps run in the order
  record the start time, load, compute the elapsed time, wait 200 ms, read the six
  properties. So \<open>loadTime\<close> is the time of the load call alone, and the probe as a whole
  takes at least 200 ms more than \<open>loadTime\<close>.
\<close>

theorem loadTime_covers_load_only:
  assumes "results (snd (testVideo H R p f s)) = results s @ Success e # rest"
  shows "trace (snd (testVideo H R p f s)) =
           trace s @ [DateNow, Load f, DateNow, Sleep 200] @ map GetProperty propertyNames
         \<and> loadTime e = lag p (trace s @ [DateNow]) (Load f)
         \<and> loadTime e = clock (loaded p f s) - clock s
         \<and> clock s + loadTime e + 200 \<le> clock (snd (testVideo H R p f s))"
proof -
  from testVideo_Success [OF assms]
  have ld: "load p (trace s @ [DateNow]) f = None"
    by (rule conjunct1)
  have t: "trace (snd (testVideo H R p f s)) =
           trace s @ [DateNow, Load f, DateNow, Sleep 200] @ map GetProperty propertyNames"
    using ld by (simp add: trace_testVideo)
  from testVideo_Success_fields [OF assms]
  have lt: "loadTime e = lag p (trace s @ [DateNow]) (Load f)"
    by simp
  have c: "clock s + lag p (trace s @ [DateNow]) (Load f) + 200
             \<le> clock (snd (testVideo H R p f s))"
    using clock_probed [of s p f] by (simp add: clock_testVideo_loaded [OF ld])
  from t lt c show ?thesis
    by (simp add: clock_loaded)
qed

theorem loadTime_covers_load_only_witness:
  "results (snd (testVideo demoHost VIDVUR_RULES demoPlayer ''clips/old.mp4'' s0))
     = results s0 @ Success oldEntry # []
   \<and> trace (snd (testVideo demoHost VIDVUR_RULES demoPlayer ''clips/old.mp4'' s0)) =
       trace s0 @ [DateNow, Load ''clips/old.mp4'', DateNow, Sleep 200]
         @ map GetProperty propertyNames
   \<and> loadTime oldEntry = lag demoPlayer (trace s0 @ [DateNow]) (Load ''clips/old.mp4'')
   \<and> clock s0 + loadTime oldEntry + 200
        \<le> clock (snd (testVideo demoHost VIDVUR_RULES demoPlayer ''clips/old.mp4'' s0))"
proof -
  have h: "results (snd (testVideo demoHost VIDVUR_RULES demoPlayer ''clips/old.mp4'' s0))
             = results s0 @ Success oldEntry # []"
    by (simp add: demo_old) (simp add: s0_def)
  note t = loadTime_covers_load_only [OF h]
  show ?thesis
    by (rule conjI [OF h conjI [OF conjunct1 [OF t] conjI [OF conjunct1 [OF conjunct2 [OF t]]
          conjunct2 [OF conjunct2 [OF conjunct2 [OF t]]]]]])
qed

text \<open>
  C6 as stated fails on the file \<^verbatim>\<open>clips/old.mp4\<close> of the example world: the probe
  takes 218 ms from the recorded start to the end of the property reads, the stored
  \<open>loadTime\<close> is the 12 ms of the load, and the clock is read for it before the wait.
\<close>

theorem loadTime_is_not_the_whole_probe:
  "results (snd (testVideo demoHost VIDVUR_RULES demoPlayer ''clips/old.mp4'' s0))
     = [Success oldEntry]
   \<and> loadTime oldEntry = 12
   \<and> clock (snd (testVideo demoHost VIDVUR_RULES demoPlayer ''clips/old.mp4'' s0)) - clock s0
       = 218
   \<and> take 4 (trace (snd (testVideo demoHost VIDVUR_RULES demoPlayer ''clips/old.mp4'' s0)))
       = [DateNow, Load ''clips/old.mp4'', DateNow, Sleep 200]"
proof -
  have "loadTime oldEntry = 12"
    by (simp add: oldEntry_def)
  moreover have "clock s0 = 1000"
    by (simp add: s0_def)
  ultimately show ?thesis
    by (simp add: demo_old)
qed







subsection \<open>Folding the results into the report\<close>

lemma successfulOf_append: "successfulOf (xs @ ys) = successfulOf xs @ successfulOf ys"
  by (induction xs rule: successfulOf.induct) simp_all

lemma successfulOf_skip:
  assumes "\<not> success r"
  shows "successfulOf (xs @ r # ys) = successfulOf (xs @ ys)"
  using assms by (cases r) (simp_all add: successfulOf_append)

lemma successfulOf_empty_iff: "successfulOf rs = [] \<longleftrightarrow> list_all (\<lambda>r. \<not> success r) rs"
  by (induction rs rule: successfulOf.induct) simp_all

lemma length_successfulOf: "length (successfulOf rs) = length (filter success rs)"
  by (induction rs rule: successfulOf.induct) simp_all

lemma foldl_loadTime:
  "foldl (\<lambda>sum r. sum + loadTime r) a es = a + sum_list (map loadTime es)"
  by (induction es arbitrary: a) simp_all

lemma avgLoadTime_printReport:
  "avgLoadTime (printReport R rs) =
     (if successfulOf rs = [] then None
      else Some (rat_of_nat (sum_list (map loadTime (successfulOf rs)))
                 / rat_of_nat (length (successfulOf rs))))"
  by (simp add: printReport_def Let_def foldl_loadTime)

section \<open>The report\<close>

text \<open>
  C8, as amended. The report of an empty sequence of results has every count equal to
  zero and no average load time at all: the performance block is skipped, and nothing is
  divided. In general the average is the mean load time of the successful entries, and
  it is left out, not reported as 0, when no entry succeeded.
\<close>

theorem report_without_successes_has_no_average:
  "printReport R [] =
     \<lparr>total = 0, successfulCount = 0, failedCount = 0,
      wouldConvertList = [], noConversionNeededList = [], failedList = [],
      avgLoadTime = None, codecs = Map.empty, codecWarned = Map.empty\<rparr>
   \<and> avgLoadTime (printReport R rs) =
       (if successfulOf rs = [] then None
        else Some (rat_of_nat (sum_list (map loadTime (successfulOf rs)))
                   / rat_of_nat (length (successfulOf rs))))
   \<and> (successfulOf rs = [] \<longleftrightarrow> list_all (\<lambda>r. \<not> success r) rs)
   \<and> length (successfulOf rs) = length (filter success rs)"
proof -
  have "printReport R [] =
     \<lparr>total = 0, successfulCount = 0, failedCount = 0,
      wouldConvertList = [], noConversionNeededList = [], failedList = [],
      avgLoadTime = None, codecs = Map.empty, codecWarned = Map.empty\<rparr>"
    by (simp add: printReport_def)
  then show ?thesis
    by (simp only: avgLoadTime_printReport successfulOf_empty_iff length_successfulOf simp_thms)
qed

theorem report_without_successes_has_no_average_witness:
  "avgLoadTime (printReport VIDVUR_RULES [Failure ''broken.avi'' (JStr ''{}''), Success oldEntry])
     = Some 12
   \<and> \<not> list_all (\<lambda>r. \<not> success r) [Failure ''broken.avi'' (JStr ''{}''), Success oldEntry]
   \<and> avgLoadTime (printReport VIDVUR_RULES [Failure ''broken.avi'' (JStr ''{}'')]) = None
   \<and> list_all (\<lambda>r. \<not> success r) [Failure ''broken.avi'' (JStr ''{}'')]"
proof -
  note a = report_without_successes_has_no_average
             [of VIDVUR_RULES "[Failure ''broken.avi'' (JStr ''{}''), Success oldEntry]"]
  note b = report_without_successes_has_no_average
             [of VIDVUR_RULES "[Failure ''broken.avi'' (JStr ''{}'')]"]
  have l: "loadTime oldEntry = 12"
    by (simp add: oldEntry_def)
  from a l have "avgLoadTime
      (printReport VIDVUR_RULES [Failure ''broken.avi'' (JStr ''{}''), Success oldEntry]) = Some 12"
    by simp
  moreover from b have "avgLoadTime
      (printReport VIDVUR_RULES [Failure ''broken.avi'' (JStr ''{}'')]) = None"
    by simp
  ultimately show ?thesis by simp
qed

text \<open>
  C8 as stated fails on the empty sequence: the report holds no average, so its average
  is not 0.
\<close>

theorem empty_report_average_is_absent:
  "avgLoadTime (printReport VIDVUR_RULES []) = None
   \<and> avgLoadTime (printReport VIDVUR_RULES []) \<noteq> Some 0"
  by (simp add: printReport_def)

text \<open>
  C9. For every sequence of results, a result with \<^verbatim>\<open>success: false\<close> is left out of the
  per-codec counts and of the average load time, and it is counted in the total and in
  the number of failed files: putting such a result anywhere into the sequence adds one
  to both counts and changes nothing that is computed from the successful entries.
\<close>

theorem failed_result_counts_only_as_failed:
  assumes "\<not> success r"
  shows "total (printReport R (xs @ r # ys)) = total (printReport R (xs @ ys)) + 1
         \<and> failedCount (printReport R (xs @ r # ys)) = failedCount (printReport R (xs @ ys)) + 1
         \<and> r \<in> set (failedList (printReport R (xs @ r # ys)))
         \<and> successfulCount (printReport R (xs @ r # ys)) = successfulCount (printReport R (xs @ ys))
         \<and> codecs (printReport R (xs @ r # ys)) = codecs (printReport R (xs @ ys))
         \<and> codecWarned (printReport R (xs @ r # ys)) = codecWarned (printReport R (xs @ ys))
         \<and> avgLoadTime (printReport R (xs @ r # ys)) = avgLoadTime (printReport R (xs @ ys))
         \<and> wouldConvertList (printReport R (xs @ r # ys))
             = wouldConvertList (printReport R (xs @ ys))"
  using assms
  by (simp add: printReport_def Let_def successfulOf_skip)

theorem failed_result_counts_only_as_failed_witness:
  "\<not> success (Failure ''audio.mkv'' (JStr ''Could not detect video codec''))
   \<and> total (printReport VIDVUR_RULES
        ([Success oldEntry] @ Failure ''audio.mkv'' (JStr ''Could not detect video codec'')
           # [Success slidesEntry])) = 3
   \<and> failedCount (printReport VIDVUR_RULES
        ([Success oldEntry] @ Failure ''audio.mkv'' (JStr ''Could not detect video codec'')
           # [Success slidesEntry])) = 1
   \<and> codecs (printReport VIDVUR_RULES
        ([Success oldEntry] @ Failure ''audio.mkv'' (JStr ''Could not detect video codec'')
           # [Success slidesEntry]))
       = [''H.263'' \<mapsto> 1, ''wmv3image'' \<mapsto> 1]
   \<and> avgLoadTime (printReport VIDVUR_RULES
        ([Success oldEntry] @ Failure ''audio.mkv'' (JStr ''Could not detect video codec'')
           # [Success slidesEntry])) = Some 12"
proof -
  have h: "\<not> success (Failure ''audio.mkv'' (JStr ''Could not detect video codec''))"
    by simp
  have base: "total (printReport VIDVUR_RULES ([Success oldEntry] @ [Success slidesEntry])) = 2"
    "failedCount (printReport VIDVUR_RULES ([Success oldEntry] @ [Success slidesEntry])) = 0"
    "codecs (printReport VIDVUR_RULES ([Success oldEntry] @ [Success slidesEntry]))
       = [''H.263'' \<mapsto> 1, ''wmv3image'' \<mapsto> 1]"
    "avgLoadTime (printReport VIDVUR_RULES ([Success oldEntry] @ [Success slidesEntry])) = Some 12"
    by (simp_all add: printReport_def countCodec_def oldEntry_def slidesEntry_def)
  from failed_result_counts_only_as_failed
         [OF h, of VIDVUR_RULES "[Success oldEntry]" "[Success slidesEntry]"] base h
  show ?thesis by simp
qed

end
